theory Spec2Isabelle
  imports Main "HOL-Library.Multiset"
begin

section \<open>Values shared by the commands\<close>

text \<open>
  A Go \<open>error\<close> is a value: \<open>Err msg\<close> for an error of a collaborator, known by
  its message, and the two errors \<open>validateStatusArgs\<close> builds:
  \<open>AtMostOneArg n\<close> is "this command accepts at most 1 arg, received n" and
  \<open>NameNeedsPackName\<close> is "--name can only be used if pack name is provided".
  The terminal interface is a log of the calls a command makes on \<open>c.ui\<close>, in
  order; a command returns its exit code together with that log.
\<close>

datatype go_error = Err string | AtMostOneArg nat | NameNeedsPackName

text \<open>
  The entries of the UI error context (\<open>errors.UIErrorContext\<close>): a prefix constant and
  the value added under it.
\<close>

datatype ctx_entry = UIContextPrefixPackName string

record Table =
  Headers :: "string list"
  Rows :: "string list list"

text \<open>\<open>terminal.NewTable(headers...)\<close>: a table with the headers and no rows.\<close>

definition NewTable :: "string list \<Rightarrow> Table" where
  "NewTable hs = \<lparr>Headers = hs, Rows = []\<rparr>"

datatype ui_event =
    ErrorWithContext go_error string "ctx_entry list"
  | Info string
  | Warning string
  | WarningBold string
  | ShowTable Table

text \<open>
  Declarations the commands use from libraries and from other files: the \<open>%q\<close> verb of
  \<open>fmt\<close>, \<open>color.RedString\<close>, the usage message of the command and the constant
  \<open>ErrParsingArgsOrFlags\<close>. They are parameters of the model.
\<close>

record externals =
  quote :: "string \<Rightarrow> string"
  RedString :: "string \<Rightarrow> string"
  helpUsageMessage :: string
  ErrParsingArgsOrFlags :: string

section \<open>The status command\<close>

text \<open>
  The fields of \<open>baseCommand\<close> and \<open>cache.PackConfig\<close> that the status command reads:
  the positional arguments left after flag parsing, the value of the \<open>--name\<close> flag,
  and the pack name. \<open>StatusCommand\<close> embeds \<open>baseCommand\<close>.
\<close>

record baseCommand =
  args :: "string list"
  deploymentName :: string

record PackConfig =
  packName :: string
  Registry :: string
  Ref :: string

record StatusCommand = baseCommand +
  packConfig :: PackConfig

record JobStatusInfo =
  jsi_packName :: string
  jsi_registryName :: string
  jsi_deploymentName :: string
  jsi_jobID :: string
  jsi_status :: string

record JobStatusError =
  jse_jobID :: string
  jse_jobError :: string

text \<open>
  The Nomad cluster as the command queries it: \<open>getAPIClient\<close>, \<open>getDeployedPackJobs\<close>
  (jobs, per-job errors, or an error) and \<open>getDeployedPacks\<close> (the map from pack name
  to its registries, in the order the command iterates it).
\<close>

record 'c cluster =
  getAPIClient :: "go_error + 'c"
  getDeployedPackJobs ::
    "'c \<Rightarrow> PackConfig \<Rightarrow> string \<Rightarrow> go_error + (JobStatusInfo list \<times> JobStatusError list)"
  getDeployedPacks :: "'c \<Rightarrow> go_error + (string \<times> string list) list"

definition validateStatusArgs :: "'a baseCommand_scheme \<Rightarrow> string list \<Rightarrow> go_error option" where
  "validateStatusArgs b as =
     (if length as > 1 then Some (AtMostOneArg (length as))
      else if deploymentName b \<noteq> [] \<and> length as = 0 then Some NameNeedsPackName
      else None)"

text \<open>
  \<open>c.Init(WithCustomArgs(args, validateStatusArgs), ...)\<close>. \<open>Init\<close> belongs to
  \<open>baseCommand\<close>, whose code is in another file; by the comment in \<open>validateStatusArgs\<close>
  the flags are parsed before the validation runs. The outcome of the flag parsing is
  an input: an error, or the command with \<open>c.args\<close> and the flag values set.
\<close>

definition Init_status :: "go_error + StatusCommand \<Rightarrow> go_error + StatusCommand" where
  "Init_status parsed =
     (case parsed of
        Inl err \<Rightarrow> Inl err
      | Inr c \<Rightarrow> (case validateStatusArgs c (args c) of Some err \<Rightarrow> Inl err | None \<Rightarrow> Inr c))"

definition formatDeployedPacks :: "(string \<times> string list) list \<Rightarrow> Table" where
  "formatDeployedPacks packRegistryMap =
     foldl (\<lambda>tbl (packName, registryMap).
              foldl (\<lambda>tbl registryName. tbl\<lparr>Rows := Rows tbl @ [[packName, registryName]]\<rparr>)
                tbl registryMap)
       (NewTable [''Pack Name'', ''Registry Name'']) packRegistryMap"

definition formatDeployedPackJobs :: "JobStatusInfo list \<Rightarrow> Table" where
  "formatDeployedPackJobs packJobs =
     foldl (\<lambda>tbl jobInfo. tbl\<lparr>Rows := Rows tbl @
              [[jsi_packName jobInfo, jsi_registryName jobInfo, jsi_deploymentName jobInfo,
                jsi_jobID jobInfo, jsi_status jobInfo]]\<rparr>)
       (NewTable [''Pack Name'', ''Registry Name'', ''Deployment Name'', ''Job Name'', ''Status''])
       packJobs"

definition formatDeployedPackErrs :: "'x externals_scheme \<Rightarrow> JobStatusError list \<Rightarrow> Table" where
  "formatDeployedPackErrs x packErrs =
     foldl (\<lambda>tbl jobInfo. tbl\<lparr>Rows := Rows tbl @
              [[jse_jobID jobInfo, RedString x (jse_jobError jobInfo)]]\<rparr>)
       (NewTable [''Job Name'', ''Error'']) packErrs"

definition renderDeployedPackJobs ::
  "'x externals_scheme \<Rightarrow> 'c cluster \<Rightarrow> StatusCommand \<Rightarrow> 'c \<Rightarrow> ctx_entry list
     \<Rightarrow> int \<times> ui_event list" where
  "renderDeployedPackJobs x k c client errorContext =
     (case getDeployedPackJobs k client (packConfig c) (deploymentName c) of
        Inl err \<Rightarrow> (1, [ErrorWithContext err ''error retrieving jobs'' errorContext])
      | Inr (packJobs, jobErrs) \<Rightarrow>
          if length packJobs = 0 then
            (let msg = ''no jobs found for pack '' @ quote x (packName (packConfig c));
                 msg = (if deploymentName c \<noteq> []
                        then msg @ '' in deployment '' @ quote x (deploymentName c)
                        else msg)
             in (0, [Warning msg]))
          else
            (0, ShowTable (formatDeployedPackJobs packJobs) #
                (if length jobErrs > 0
                 then [WarningBold ''error retrieving job status for the following jobs:'',
                       ShowTable (formatDeployedPackErrs x jobErrs)]
                 else [])))"

definition renderAllDeployedPacks ::
  "'c cluster \<Rightarrow> 'c \<Rightarrow> ctx_entry list \<Rightarrow> int \<times> ui_event list" where
  "renderAllDeployedPacks k client errorContext =
     (case getDeployedPacks k client of
        Inl err \<Rightarrow> (1, [ErrorWithContext err ''error retrieving packs'' errorContext])
      | Inr packRegistryMap \<Rightarrow>
          if length packRegistryMap = 0 then (0, [Warning ''no packs found''])
          else (0, [ShowTable (formatDeployedPacks packRegistryMap)]))"

text \<open>\<open>StatusCommand.Run\<close>, from the outcome of the flag parsing on.\<close>

definition Run_status ::
  "'x externals_scheme \<Rightarrow> 'c cluster \<Rightarrow> go_error + StatusCommand \<Rightarrow> int \<times> ui_event list" where
  "Run_status x k parsed =
     (case Init_status parsed of
        Inl err \<Rightarrow>
          (1, [ErrorWithContext err (ErrParsingArgsOrFlags x) [], Info (helpUsageMessage x)])
      | Inr c0 \<Rightarrow>
          (let c = (case args c0 of
                      [] \<Rightarrow> c0
                    | a # _ \<Rightarrow> c0\<lparr>packConfig := (packConfig c0)\<lparr>packName := a\<rparr>\<rparr>);
               errorContext = [UIContextPrefixPackName (packName (packConfig c))]
           in case getAPIClient k of
                Inl err \<Rightarrow> (1, [ErrorWithContext err ''failed to initialize client'' errorContext])
              | Inr client \<Rightarrow>
                  if packName (packConfig c) = [] then renderAllDeployedPacks k client errorContext
                  else renderDeployedPackJobs x k c client errorContext))"

section \<open>Diagnostics\<close>

text \<open>
  Modelled from the spec: the diagnostics value that \<open>variableParser.Parse()\<close> returns,
  whose type and methods are not among the sources. A diagnostic has a severity
  (error or warning), a subject (pack alias, variable name) and a message, here the
  kind of problem. The accumulator keeps the diagnostics in the order they were added;
  \<open>HasErrors\<close> holds when one of them is an error.
\<close>

datatype Severity = DiagError | DiagWarning

datatype diag_message = MissingRequired | TypeMismatch | UnknownVariable

record Diagnostic =
  severity :: Severity
  subject :: "string \<times> string"
  message :: diag_message

type_synonym Diagnostics = "Diagnostic list"

definition Add :: "Diagnostics \<Rightarrow> Diagnostic \<Rightarrow> Diagnostics" where
  "Add diags d = diags @ [d]"

definition HasErrors :: "Diagnostics \<Rightarrow> bool" where
  "HasErrors diags = list_ex (\<lambda>d. severity d = DiagError) diags"

section \<open>The info command\<close>

text \<open>
  The part of \<open>cty\<close> that the info command touches. A \<open>cty.Type\<close> is \<open>NilType\<close> or
  a real type; a \<open>cty.Value\<close> is the zero value \<open>NilVal\<close> (no type, null), a null of a
  type, or a value of a type (its payload is never read here). \<open>Equals\<close>, \<open>IsNull\<close>
  and \<open>Type()\<close> are the methods of the same names.
\<close>

datatype 'ty cty_type = NilType | Impl 'ty

datatype 'ty cty_value = NilVal | NullVal 'ty | KnownVal 'ty

definition Equals :: "'ty cty_type \<Rightarrow> 'ty cty_type \<Rightarrow> bool" where
  "Equals t other = (t = other)"

fun IsNull :: "'ty cty_value \<Rightarrow> bool" where
  "IsNull NilVal = True"
| "IsNull (NullVal t) = True"
| "IsNull (KnownVal t) = False"

fun Type_of :: "'ty cty_value \<Rightarrow> 'ty cty_type" where
  "Type_of NilVal = NilType"
| "Type_of (NullVal t) = Impl t"
| "Type_of (KnownVal t) = Impl t"

text \<open>The fields of a parsed variable that the command prints.\<close>

record 'ty Variable =
  Name :: string
  Type :: "'ty cty_type"
  Default :: "'ty cty_value"
  Description :: string

text \<open>The metadata of the loaded pack: \<open>p.Metadata.Pack.Name\<close> and so on.\<close>

record Metadata =
  Pack_Name :: string
  Pack_Description :: string
  App_URL :: string

text \<open>
  Further declarations from libraries: \<open>FriendlyName\<close> of a
  \<open>cty.Type\<close> and the text \<open>diags.Error()\<close> of a list of diagnostics.
\<close>

record 'ty info_externals = externals +
  FriendlyName :: "'ty cty_type \<Rightarrow> string"
  diagsError :: "Diagnostics \<Rightarrow> string"

text \<open>
  What the collaborators return in one invocation: \<open>c.Init\<close>,
  \<open>initPackCommand\<close> (the error context), \<open>cache.VerifyPackExists\<close> (which reports on
  the terminal itself), \<open>loader.Load\<close>, \<open>parser.NewParser\<close> and \<open>Parse\<close>.
  \<open>GetVars()\<close> is a Go map from pack name to the pack's variables; it is listed in the
  order the command iterates it. A \<open>nil\<close> list of diagnostics is the empty list.
  The assignment \<open>c.packConfig.Name = c.args[0]\<close> only feeds these calls.
\<close>

record 'ty info_calls =
  Init_info :: "go_error option"
  initPackCommand :: "ctx_entry list"
  VerifyPackExists :: "(go_error \<times> ui_event list) option"
  Load :: "go_error + Metadata"
  NewParser :: "go_error option"
  Parse :: "(string \<times> 'ty Variable list) list \<times> Diagnostics"

text \<open>The glint document: rows of components.\<close>

datatype style_option = Bold

datatype component = Text string | Style component "style_option list"

type_synonym doc_row = "component list"

definition varType :: "('ty, 'x) info_externals_scheme \<Rightarrow> 'ty Variable \<Rightarrow> string" where
  "varType x v =
     (if \<not> Equals (Type v) NilType then FriendlyName x (Type v)
      else if \<not> IsNull (Default v) then FriendlyName x (Type_of (Default v))
      else ''unknown'')"

text \<open>The two \<open>Sprintf\<close> calls of the loop; \<open>CHR 0x09\<close> is the tab.\<close>

definition required_row :: "('ty, 'x) info_externals_scheme \<Rightarrow> 'ty Variable \<Rightarrow> string" where
  "required_row x v =
     CHR 0x09 # ''- '' @ quote x (Name v) @ '' ('' @ varType x v @ '': required) - '' @ Description v"

definition optional_row :: "('ty, 'x) info_externals_scheme \<Rightarrow> 'ty Variable \<Rightarrow> string" where
  "optional_row x v =
     CHR 0x09 # ''- '' @ quote x (Name v) @ '' ('' @ varType x v @ '': optional) - '' @ Description v"

text \<open>One pass of the loop over the variables of a pack: the two slices, updated.\<close>

definition add_variable ::
  "('ty, 'x) info_externals_scheme \<Rightarrow> string list \<times> string list \<Rightarrow> 'ty Variable
     \<Rightarrow> string list \<times> string list" where
  "add_variable x acc v =
     (case acc of (required, optional) \<Rightarrow>
        if IsNull (Default v) then (required @ [required_row x v], optional)
        else (required, optional @ [optional_row x v]))"

definition variable_rows :: "('ty, 'x) info_externals_scheme \<Rightarrow> 'ty Variable list \<Rightarrow> string list" where
  "variable_rows x variables =
     (case foldl (add_variable x) ([], []) variables of
        (required, optional) \<Rightarrow> required @ optional)"

text \<open>The rows one pack adds to the document: its heading, then its variables.\<close>

definition pack_section ::
  "('ty, 'x) info_externals_scheme \<Rightarrow> string \<times> 'ty Variable list \<Rightarrow> doc_row list" where
  "pack_section x pv =
     (case pv of (pName, variables) \<Rightarrow>
        [Style (Text (''Pack '' @ quote x pName @ '' Variables:'')) [Bold]] #
        map (\<lambda>row. [Style (Text row) []]) (variable_rows x variables))"

text \<open>
  \<open>InfoCommand.Run\<close>: the exit code, the terminal log and the rendered document
  (empty unless the command reaches \<open>doc.RenderFrame()\<close>).
\<close>

definition Run_info ::
  "('ty, 'x) info_externals_scheme \<Rightarrow> 'ty info_calls \<Rightarrow> int \<times> ui_event list \<times> doc_row list" where
  "Run_info x w =
     (case Init_info w of
        Some err \<Rightarrow>
          (1, [ErrorWithContext err (ErrParsingArgsOrFlags x) [], Info (helpUsageMessage x)], [])
      | None \<Rightarrow>
     (let errorContext = initPackCommand w in
      case VerifyPackExists w of
        Some (err, shown) \<Rightarrow> (1, shown, [])
      | None \<Rightarrow>
     (case Load w of
        Inl err \<Rightarrow>
          (1, [ErrorWithContext err ''failed to load pack from local directory'' errorContext], [])
      | Inr p \<Rightarrow>
     (case NewParser w of
        Some err \<Rightarrow> (1, [], [])
      | None \<Rightarrow>
     (case Parse w of (parsedVars, diags) \<Rightarrow>
        if diags \<noteq> [] \<and> HasErrors diags then (1, [Info (diagsError x diags)], [])
        else
          (0, [],
           [[Style (Text ''Pack Name          '') [Bold], Text (Pack_Name p)],
            [Style (Text ''Description        '') [Bold], Text (Pack_Description p)],
            [Style (Text ''Application URL    '') [Bold], Text (App_URL p)]] @
           concat (map (pack_section x) parsedVars)))))))"

section \<open>The variable resolution engine\<close>

text \<open>
  Modelled from the spec: the resolution engine behind \<open>parser.NewParser\<close> and
  \<open>Parse\<close>, which the info command calls and whose code is not among the sources.
  The definitions follow sections 3 and 4.4 of the spec.

  The type system (component 1 of the spec) is a parameter: the spec names its types
  but not its compatibility rules. \<open>type_of\<close> is the runtime type of a value and
  \<open>compatible t v\<close> says that the value \<open>v\<close> may be assigned where the type \<open>t\<close> is
  expected.
\<close>

record ('ty, 'v) type_system =
  type_of :: "'v \<Rightarrow> 'ty"
  compatible :: "'ty \<Rightarrow> 'v \<Rightarrow> bool"

text \<open>
  Modelled from the spec: a VariableSpec, and a Pack as a tree that owns its children
  under their aliases.
\<close>

record ('ty, 'v) VariableSpec =
  name :: string
  declaredType :: "'ty option"
  defaultValue :: "'v option"
  description :: string
  owningPackAlias :: string

datatype ('ty, 'v) Pack =
  Pack (metadata: Metadata) (variableSpecs: "('ty, 'v) VariableSpec list")
       (templateFiles: "string list") (children: "(string \<times> ('ty, 'v) Pack) list")

text \<open>
  Modelled from the spec: a VariableSource has one of five origins, a target path (a
  bare variable name, or a pack alias with a variable name) and the value it assigns.
  The precedence rank of section 4.4, lowest first: pack-declared default, shared
  override file, per-pack override file, environment variable, command-line assignment.
\<close>

datatype source_kind =
  PackDefault | SharedOverrideFile | PerPackOverrideFile | EnvironmentVariable | CommandLineAssignment

fun precedence :: "source_kind \<Rightarrow> nat" where
  "precedence PackDefault = 0"
| "precedence SharedOverrideFile = 1"
| "precedence PerPackOverrideFile = 2"
| "precedence EnvironmentVariable = 3"
| "precedence CommandLineAssignment = 4"

datatype target_path = BareName string | Qualified string string

record 'v VariableSource =
  origin :: source_kind
  target :: target_path
  assigned :: 'v

text \<open>Modelled from the spec: every VariableSpec reachable in the tree, parents first.\<close>

fun all_specs :: "('ty, 'v) Pack \<Rightarrow> ('ty, 'v) VariableSpec list" where
  "all_specs (Pack m vs fs cs) = vs @ concat (map (\<lambda>ac. all_specs (snd ac)) cs)"

definition spec_key :: "('ty, 'v, 'x) VariableSpec_scheme \<Rightarrow> string \<times> string" where
  "spec_key s = (owningPackAlias s, name s)"

text \<open>
  Modelled from the spec, section 4.4 step 2: the sources that match a spec. A source
  with a bare name applies to every pack that declares the name, unless a source
  qualified with the pack's alias exists for the same name; then only the qualified
  sources apply to that pack, whatever their origins.
\<close>

definition qualified_sources ::
  "('ty, 'v, 'x) VariableSpec_scheme \<Rightarrow> 'v VariableSource list \<Rightarrow> 'v VariableSource list" where
  "qualified_sources s srcs =
     filter (\<lambda>m. target m = Qualified (owningPackAlias s) (name s)) srcs"

definition bare_sources ::
  "('ty, 'v, 'x) VariableSpec_scheme \<Rightarrow> 'v VariableSource list \<Rightarrow> 'v VariableSource list" where
  "bare_sources s srcs = filter (\<lambda>m. target m = BareName (name s)) srcs"

definition matching_sources ::
  "('ty, 'v, 'x) VariableSpec_scheme \<Rightarrow> 'v VariableSource list \<Rightarrow> 'v VariableSource list" where
  "matching_sources s srcs =
     (if qualified_sources s srcs \<noteq> [] then qualified_sources s srcs else bare_sources s srcs)"

text \<open>
  Modelled from the spec: the sources in increasing precedence order. The sort is
  stable, so of two sources of one origin the one supplied last is applied last.
\<close>

definition in_precedence_order :: "'v VariableSource list \<Rightarrow> 'v VariableSource list" where
  "in_precedence_order srcs = sort_key (\<lambda>m. precedence (origin m)) srcs"

text \<open>
  Modelled from the spec, section 4.4 steps 1 and 3. The state of one variable is its
  current value (\<open>None\<close> is "unset"), the type in force (\<open>None\<close> until one is known) and
  the diagnostics so far. The type in force starts as the declared type, or else the
  type of the default. A source whose value is compatible with the type in force
  overwrites the value; one whose value is not is discarded with a TypeMismatch
  diagnostic; while no type is in force the first value is accepted and its type
  becomes the type in force. TypeMismatch is recovered in place and is not among the
  fatal conditions of section 7, so it is recorded as a warning.
\<close>

definition initial_type ::
  "('ty, 'v) type_system \<Rightarrow> ('ty, 'v, 'x) VariableSpec_scheme \<Rightarrow> 'ty option" where
  "initial_type ts s =
     (case declaredType s of
        Some t \<Rightarrow> Some t
      | None \<Rightarrow> map_option (type_of ts) (defaultValue s))"

definition apply_source ::
  "('ty, 'v) type_system \<Rightarrow> ('ty, 'v, 'x) VariableSpec_scheme
     \<Rightarrow> 'v option \<times> 'ty option \<times> Diagnostics \<Rightarrow> 'v VariableSource
     \<Rightarrow> 'v option \<times> 'ty option \<times> Diagnostics" where
  "apply_source ts s st m =
     (case st of (cur, ty, diags) \<Rightarrow>
        (case ty of
           None \<Rightarrow> (Some (assigned m), Some (type_of ts (assigned m)), diags)
         | Some t \<Rightarrow>
             if compatible ts t (assigned m) then (Some (assigned m), ty, diags)
             else (cur, ty,
                   Add diags \<lparr>severity = DiagWarning, subject = spec_key s,
                              message = TypeMismatch\<rparr>)))"

text \<open>
  Modelled from the spec, section 4.4 step 4: one spec resolved. When the value is
  still unset after all sources and the spec is required (no default), MissingRequired
  is emitted: an error, or a warning when \<open>ignoreMissing\<close> is set.
\<close>

definition resolve_spec ::
  "('ty, 'v) type_system \<Rightarrow> bool \<Rightarrow> 'v VariableSource list \<Rightarrow> ('ty, 'v, 'x) VariableSpec_scheme
     \<Rightarrow> 'v option \<times> Diagnostics" where
  "resolve_spec ts ignoreMissing srcs s =
     (case foldl (apply_source ts s) (defaultValue s, initial_type ts s, [])
             (in_precedence_order (matching_sources s srcs)) of
        (cur, ty, diags) \<Rightarrow>
          if cur = None \<and> defaultValue s = None then
            (None,
             Add diags \<lparr>severity = (if ignoreMissing then DiagWarning else DiagError),
                        subject = spec_key s, message = MissingRequired\<rparr>)
          else (cur, diags))"

text \<open>
  Modelled from the spec, section 4.4 step 5: a source that names a variable no spec
  of the tree declares gives an UnknownVariable warning and no value.
\<close>

definition declared_target :: "('ty, 'v, 'x) VariableSpec_scheme list \<Rightarrow> target_path \<Rightarrow> bool" where
  "declared_target specs tp =
     (case tp of
        BareName n \<Rightarrow> list_ex (\<lambda>s. name s = n) specs
      | Qualified p n \<Rightarrow> list_ex (\<lambda>s. owningPackAlias s = p \<and> name s = n) specs)"

definition unknown_variable :: "target_path \<Rightarrow> Diagnostic" where
  "unknown_variable tp =
     \<lparr>severity = DiagWarning,
      subject = (case tp of BareName n \<Rightarrow> ([], n) | Qualified p n \<Rightarrow> (p, n)),
      message = UnknownVariable\<rparr>"

text \<open>
  Modelled from the spec: \<open>Resolve\<close>. The ResolvedVariableSet lists, for every spec
  with a final value, the value under the key (pack alias, variable name);
  \<open>resolved_value\<close> looks a variable up. The diagnostics are those of the specs in
  tree order, then those of the unknown sources.
\<close>

record 'v Resolution =
  ResolvedVariableSet :: "((string \<times> string) \<times> 'v) list"
  diagnostics :: Diagnostics

definition Resolve ::
  "('ty, 'v) type_system \<Rightarrow> bool \<Rightarrow> ('ty, 'v) Pack \<Rightarrow> 'v VariableSource list \<Rightarrow> 'v Resolution" where
  "Resolve ts ignoreMissing tree srcs =
     (let specs = all_specs tree in
      \<lparr>ResolvedVariableSet =
         concat (map (\<lambda>s. case fst (resolve_spec ts ignoreMissing srcs s) of
                             None \<Rightarrow> []
                           | Some v \<Rightarrow> [(spec_key s, v)]) specs),
       diagnostics =
         concat (map (\<lambda>s. snd (resolve_spec ts ignoreMissing srcs s)) specs) @
         map (\<lambda>m. unknown_variable (target m))
           (filter (\<lambda>m. \<not> declared_target specs (target m)) srcs)\<rparr>)"

definition resolved_value :: "'v Resolution \<Rightarrow> string \<Rightarrow> string \<Rightarrow> 'v option" where
  "resolved_value r packAlias n = map_of (ResolvedVariableSet r) (packAlias, n)"

section \<open>Validation of the status command's arguments\<close>

text \<open>
  C9. \<open>validateStatusArgs\<close> returns an error when more than one positional argument is
  given, returns an error when the \<open>--name\<close> flag is set (its value is not empty) and
  no pack name is given, and returns \<open>nil\<close> in every other case.
\<close>

theorem validateStatusArgs_cases:
  "(length as > 1 \<longrightarrow> validateStatusArgs b as = Some (AtMostOneArg (length as))) \<and>
   (deploymentName b \<noteq> [] \<and> as = [] \<longrightarrow> validateStatusArgs b as = Some NameNeedsPackName) \<and>
   (\<not> length as > 1 \<and> \<not> (deploymentName b \<noteq> [] \<and> as = []) \<longrightarrow> validateStatusArgs b as = None)"
  by (auto simp: validateStatusArgs_def)

theorem validateStatusArgs_cases_witness:
  "validateStatusArgs \<lparr>args = [], deploymentName = []\<rparr> [''a'', ''b''] = Some (AtMostOneArg 2) \<and>
   validateStatusArgs \<lparr>args = [], deploymentName = ''dev''\<rparr> [] = Some NameNeedsPackName \<and>
   validateStatusArgs \<lparr>args = [], deploymentName = ''dev''\<rparr> [''example''] = None \<and>
   validateStatusArgs \<lparr>args = [], deploymentName = []\<rparr> [] = None"
  using validateStatusArgs_cases [of "[''a'', ''b'']" "\<lparr>args = [], deploymentName = []\<rparr>"]
    validateStatusArgs_cases [of "[]" "\<lparr>args = [], deploymentName = ''dev''\<rparr>"]
    validateStatusArgs_cases [of "[''example'']" "\<lparr>args = [], deploymentName = ''dev''\<rparr>"]
    validateStatusArgs_cases [of "[]" "\<lparr>args = [], deploymentName = []\<rparr>"]
  by simp

section \<open>The status command when a pack has no jobs\<close>

lemma renderDeployedPackJobs_no_jobs:
  assumes "getDeployedPackJobs k client (packConfig c) (deploymentName c) = Inr ([], jobErrs)"
  shows "renderDeployedPackJobs x k c client ctx =
     (0, [Warning (''no jobs found for pack '' @ quote x (packName (packConfig c)) @
                   (if deploymentName c = [] then []
                    else '' in deployment '' @ quote x (deploymentName c)))])"
  using assms by (simp add: renderDeployedPackJobs_def)

lemma Init_status_one_arg:
  "args c = [pname] \<Longrightarrow> Init_status (Inr c) = Inr c"
  by (simp add: Init_status_def validateStatusArgs_def)

text \<open>
  C10. An invocation of the status command that names a pack, whose query for the
  deployed jobs succeeds with no job, shows one warning and exits with code 0. The
  warning names the pack, and names the deployment when \<open>--name\<close> was given.
\<close>

theorem Run_status_no_jobs:
  assumes "args c = [pname]" and "pname \<noteq> []"
    and "getAPIClient k = Inr client"
    and "getDeployedPackJobs k client ((packConfig c)\<lparr>packName := pname\<rparr>) (deploymentName c)
           = Inr ([], jobErrs)"
  shows "Run_status x k (Inr c) =
     (0, [Warning (''no jobs found for pack '' @ quote x pname @
                   (if deploymentName c = [] then []
                    else '' in deployment '' @ quote x (deploymentName c)))])"
proof -
  let ?c = "c\<lparr>packConfig := (packConfig c)\<lparr>packName := pname\<rparr>\<rparr>"
  have q: "getDeployedPackJobs k client (packConfig ?c) (deploymentName ?c) = Inr ([], jobErrs)"
    using assms(4) by simp
  have "Run_status x k (Inr c) =
          renderDeployedPackJobs x k ?c client [UIContextPrefixPackName pname]"
    using assms(1,2,3) by (simp add: Run_status_def Init_status_one_arg)
  also have "\<dots> = (0, [Warning (''no jobs found for pack '' @ quote x (packName (packConfig ?c)) @
                   (if deploymentName ?c = [] then []
                    else '' in deployment '' @ quote x (deploymentName ?c)))])"
    by (rule renderDeployedPackJobs_no_jobs [OF q])
  finally show ?thesis by simp
qed

theorem Run_status_no_jobs_witness:
  "Run_status
     \<lparr>quote = (\<lambda>s. CHR 0x22 # s @ [CHR 0x22]), RedString = (\<lambda>s. s),
      helpUsageMessage = ''usage'', ErrParsingArgsOrFlags = ''error parsing args or flags''\<rparr>
     \<lparr>getAPIClient = Inr (),
      getDeployedPackJobs = (\<lambda>cl cfg dep. Inr ([], [])),
      getDeployedPacks = (\<lambda>cl. Inr [])\<rparr>
     (Inr \<lparr>args = [''example''], deploymentName = ''dev'',
           packConfig = \<lparr>packName = [], Registry = [], Ref = []\<rparr>\<rparr>)
   = (0, [Warning (''no jobs found for pack '' @ CHR 0x22 # ''example'' @ [CHR 0x22] @
                   '' in deployment '' @ CHR 0x22 # ''dev'' @ [CHR 0x22])])"
  using Run_status_no_jobs
    [of "\<lparr>args = [''example''], deploymentName = ''dev'',
           packConfig = \<lparr>packName = [], Registry = [], Ref = []\<rparr>\<rparr>"
        "''example''"
        "\<lparr>getAPIClient = Inr (),
          getDeployedPackJobs = (\<lambda>cl cfg dep. Inr ([], [])),
          getDeployedPacks = (\<lambda>cl. Inr [])\<rparr>"
        "()" "[]"
        "\<lparr>quote = (\<lambda>s. CHR 0x22 # s @ [CHR 0x22]), RedString = (\<lambda>s. s),
          helpUsageMessage = ''usage'', ErrParsingArgsOrFlags = ''error parsing args or flags''\<rparr>"]
  by simp

section \<open>The variables the info command lists\<close>

lemma foldl_add_variable:
  "foldl (add_variable x) (rq, opt) vs =
     (rq @ map (required_row x) (filter (\<lambda>v. IsNull (Default v)) vs),
      opt @ map (optional_row x) (filter (\<lambda>v. \<not> IsNull (Default v)) vs))"
  by (induction vs arbitrary: rq opt) (simp_all add: add_variable_def)

lemma variable_rows_partition:
  "variable_rows x vs =
     map (required_row x) (filter (\<lambda>v. IsNull (Default v)) vs) @
     map (optional_row x) (filter (\<lambda>v. \<not> IsNull (Default v)) vs)"
  by (simp add: variable_rows_def foldl_add_variable)

lemma mset_partition_rows:
  "mset (map f (filter P vs)) + mset (map g (filter (\<lambda>v. \<not> P v) vs)) =
     image_mset (\<lambda>v. if P v then f v else g v) (mset vs)"
  by (induction vs) simp_all

subsection \<open>The document of a successful run\<close>

lemma Run_info_document:
  assumes "Init_info w = None" and "VerifyPackExists w = None" and "Load w = Inr p"
    and "NewParser w = None" and "Parse w = (parsedVars, diags)" and "\<not> HasErrors diags"
  shows "snd (snd (Run_info x w)) =
     [[Style (Text ''Pack Name          '') [Bold], Text (Pack_Name p)],
      [Style (Text ''Description        '') [Bold], Text (Pack_Description p)],
      [Style (Text ''Application URL    '') [Bold], Text (App_URL p)]] @
     concat (map (pack_section x) parsedVars)"
  using assms by (simp add: Run_info_def)

lemma mset_pack_sections:
  "mset (concat (map (pack_section x) pv)) =
     (\<Sum>(pName, vs) \<leftarrow> pv.
        {#[Style (Text (''Pack '' @ quote x pName @ '' Variables:'')) [Bold]]#} +
        image_mset (\<lambda>v. [Style (Text (if IsNull (Default v) then required_row x v
                                         else optional_row x v)) []]) (mset vs))"
proof (induction pv)
  case Nil
  then show ?case by simp
next
  case (Cons a pv)
  obtain pName vs where a: "a = (pName, vs)" by (cases a)
  have "mset (variable_rows x vs) =
          image_mset (\<lambda>v. if IsNull (Default v) then required_row x v else optional_row x v) (mset vs)"
    by (simp only: variable_rows_partition mset_append mset_partition_rows)
  then have "mset (pack_section x (pName, vs)) =
      {#[Style (Text (''Pack '' @ quote x pName @ '' Variables:'')) [Bold]]#} +
        image_mset (\<lambda>v. [Style (Text (if IsNull (Default v) then required_row x v
                                         else optional_row x v)) []]) (mset vs)"
    by (simp add: pack_section_def image_mset.compositionality comp_def)
  with Cons.IH a show ?case by simp
qed


text \<open>
  C6. When the info command succeeds, its document holds, besides the three rows of
  the pack's metadata and one heading per pack, exactly one row for every variable of
  every pack, and that row says "required" exactly when the variable's default is null
  (the variable has no default) and "optional" otherwise.
\<close>

theorem Run_info_reports_required_iff_null_default:
  assumes "Init_info w = None" and "VerifyPackExists w = None" and "Load w = Inr p"
    and "NewParser w = None" and "Parse w = (parsedVars, diags)" and "\<not> HasErrors diags"
  shows "mset (snd (snd (Run_info x w))) =
     {#[Style (Text ''Pack Name          '') [Bold], Text (Pack_Name p)],
       [Style (Text ''Description        '') [Bold], Text (Pack_Description p)],
       [Style (Text ''Application URL    '') [Bold], Text (App_URL p)]#} +
     (\<Sum>(pName, vs) \<leftarrow> parsedVars.
        {#[Style (Text (''Pack '' @ quote x pName @ '' Variables:'')) [Bold]]#} +
        image_mset
          (\<lambda>v. [Style (Text (CHR 0x09 # ''- '' @ quote x (Name v) @ '' ('' @ varType x v @ '': '' @
                                (if IsNull (Default v) then ''required'' else ''optional'') @
                                '') - '' @ Description v)) []])
          (mset vs))"
proof -
  have row: "\<And>v. (if IsNull (Default v) then required_row x v else optional_row x v) =
      CHR 0x09 # ''- '' @ quote x (Name v) @ '' ('' @ varType x v @ '': '' @
        (if IsNull (Default v) then ''required'' else ''optional'') @ '') - '' @ Description v"
    by (simp add: required_row_def optional_row_def)
  show ?thesis
    unfolding Run_info_document [OF assms] mset_append mset_pack_sections row
    by simp
qed

theorem Run_info_reports_required_iff_null_default_witness:
  "mset (snd (snd (Run_info
       \<lparr>quote = (\<lambda>s. s), RedString = (\<lambda>s. s), helpUsageMessage = [],
        ErrParsingArgsOrFlags = [],
        FriendlyName = (\<lambda>t. case t of NilType \<Rightarrow> [] | Impl n \<Rightarrow> n), diagsError = (\<lambda>d. [])\<rparr>
       \<lparr>Init_info = None, initPackCommand = [], VerifyPackExists = None,
        Load = Inr \<lparr>Pack_Name = ''hello_world'', Pack_Description = ''greets'', App_URL = ''url''\<rparr>,
        NewParser = None,
        Parse = ([(''hello_world'', [\<lparr>Name = ''job_name'', Type = Impl ''string'', Default = KnownVal ''number'', Description = ''the job''\<rparr>,
                   \<lparr>Name = ''region'', Type = NilType, Default = NilVal, Description = ''the region''\<rparr>,
                   \<lparr>Name = ''count'', Type = NilType, Default = KnownVal ''number'', Description = ''how many''\<rparr>])], [])\<rparr>))) =
     {#[Style (Text ''Pack Name          '') [Bold], Text ''hello_world''],
      [Style (Text ''Description        '') [Bold], Text ''greets''],
      [Style (Text ''Application URL    '') [Bold], Text ''url''],
      [Style (Text ''Pack hello_world Variables:'') [Bold]],
      [Style (Text (CHR 0x09 # ''- job_name (string: optional) - the job'')) []],
      [Style (Text (CHR 0x09 # ''- region (unknown: required) - the region'')) []],
      [Style (Text (CHR 0x09 # ''- count (number: optional) - how many'')) []]#}"
proof -
  let ?x = "\<lparr>quote = (\<lambda>s. s), RedString = (\<lambda>s. s), helpUsageMessage = [],
        ErrParsingArgsOrFlags = [],
        FriendlyName = (\<lambda>t. case t of NilType \<Rightarrow> [] | Impl n \<Rightarrow> n), diagsError = (\<lambda>d. [])\<rparr>"
  let ?w = "\<lparr>Init_info = None, initPackCommand = [], VerifyPackExists = None,
        Load = Inr \<lparr>Pack_Name = ''hello_world'', Pack_Description = ''greets'', App_URL = ''url''\<rparr>,
        NewParser = None,
        Parse = ([(''hello_world'', [\<lparr>Name = ''job_name'', Type = Impl ''string'', Default = KnownVal ''number'', Description = ''the job''\<rparr>,
                   \<lparr>Name = ''region'', Type = NilType, Default = NilVal, Description = ''the region''\<rparr>,
                   \<lparr>Name = ''count'', Type = NilType, Default = KnownVal ''number'', Description = ''how many''\<rparr>])], [])\<rparr>"
  have h: "\<not> HasErrors []" by (simp add: HasErrors_def)
  show ?thesis
    using Run_info_reports_required_iff_null_default [where w = ?w and x = ?x, OF _ _ _ _ _ h]
    by (simp add: varType_def Equals_def)
qed

text \<open>The type printed for a variable, by the cases of its declared type and default.\<close>

lemma varType_by_cases:
  "varType x v =
     (case Type v of
        Impl t \<Rightarrow> FriendlyName x (Impl t)
      | NilType \<Rightarrow>
          (case Default v of
             KnownVal u \<Rightarrow> FriendlyName x (Impl u)
           | NullVal u \<Rightarrow> ''unknown''
           | NilVal \<Rightarrow> ''unknown''))"
  by (simp add: varType_def Equals_def split: cty_type.splits cty_value.splits)

text \<open>
  C7. When the info command succeeds, the document is the metadata rows followed, for
  each pack, by its heading and one row per variable, and the type printed in the row
  of a variable is the name of its declared type when it has one; without a declared
  type it is the name of the type of its default when the default is not null; with
  neither it is "unknown".
\<close>

theorem Run_info_reports_type:
  assumes "Init_info w = None" and "VerifyPackExists w = None" and "Load w = Inr p"
    and "NewParser w = None" and "Parse w = (parsedVars, diags)" and "\<not> HasErrors diags"
  shows "snd (snd (Run_info x w)) =
     [[Style (Text ''Pack Name          '') [Bold], Text (Pack_Name p)],
      [Style (Text ''Description        '') [Bold], Text (Pack_Description p)],
      [Style (Text ''Application URL    '') [Bold], Text (App_URL p)]] @
     concat (map (\<lambda>(pName, vs).
        [Style (Text (''Pack '' @ quote x pName @ '' Variables:'')) [Bold]] #
        map (\<lambda>v. [Style (Text (CHR 0x09 # ''- '' @ quote x (Name v) @ '' ('' @
                      (case Type v of
                         Impl t \<Rightarrow> FriendlyName x (Impl t)
                       | NilType \<Rightarrow>
                           (case Default v of
                              KnownVal u \<Rightarrow> FriendlyName x (Impl u)
                            | NullVal u \<Rightarrow> ''unknown''
                            | NilVal \<Rightarrow> ''unknown'')) @
                      '': '' @ (if IsNull (Default v) then ''required'' else ''optional'') @
                      '') - '' @ Description v)) []])
          (filter (\<lambda>v. IsNull (Default v)) vs @ filter (\<lambda>v. \<not> IsNull (Default v)) vs))
        parsedVars)"
proof -
  have sect: "pack_section x = (\<lambda>(pName, vs).
        [Style (Text (''Pack '' @ quote x pName @ '' Variables:'')) [Bold]] #
        map (\<lambda>v. [Style (Text (CHR 0x09 # ''- '' @ quote x (Name v) @ '' ('' @
                      (case Type v of
                         Impl t \<Rightarrow> FriendlyName x (Impl t)
                       | NilType \<Rightarrow>
                           (case Default v of
                              KnownVal u \<Rightarrow> FriendlyName x (Impl u)
                            | NullVal u \<Rightarrow> ''unknown''
                            | NilVal \<Rightarrow> ''unknown'')) @
                      '': '' @ (if IsNull (Default v) then ''required'' else ''optional'') @
                      '') - '' @ Description v)) []])
          (filter (\<lambda>v. IsNull (Default v)) vs @ filter (\<lambda>v. \<not> IsNull (Default v)) vs))"
    by (rule ext)
       (auto simp: pack_section_def variable_rows_partition required_row_def optional_row_def
          varType_by_cases split: prod.splits)
  show ?thesis
    unfolding Run_info_document [OF assms] sect by (rule refl)
qed

theorem Run_info_reports_type_witness:
  "snd (snd (Run_info
       \<lparr>quote = (\<lambda>s. s), RedString = (\<lambda>s. s), helpUsageMessage = [],
        ErrParsingArgsOrFlags = [],
        FriendlyName = (\<lambda>t. case t of NilType \<Rightarrow> [] | Impl n \<Rightarrow> n), diagsError = (\<lambda>d. [])\<rparr>
       \<lparr>Init_info = None, initPackCommand = [], VerifyPackExists = None,
        Load = Inr \<lparr>Pack_Name = ''hello_world'', Pack_Description = ''greets'', App_URL = ''url''\<rparr>,
        NewParser = None,
        Parse = ([(''hello_world'', [\<lparr>Name = ''job_name'', Type = Impl ''string'', Default = KnownVal ''number'', Description = ''the job''\<rparr>,
                   \<lparr>Name = ''region'', Type = NilType, Default = NilVal, Description = ''the region''\<rparr>,
                   \<lparr>Name = ''count'', Type = NilType, Default = KnownVal ''number'', Description = ''how many''\<rparr>])], [])\<rparr>)) =
     [[Style (Text ''Pack Name          '') [Bold], Text ''hello_world''],
      [Style (Text ''Description        '') [Bold], Text ''greets''],
      [Style (Text ''Application URL    '') [Bold], Text ''url''],
      [Style (Text ''Pack hello_world Variables:'') [Bold]],
      [Style (Text (CHR 0x09 # ''- region (unknown: required) - the region'')) []],
      [Style (Text (CHR 0x09 # ''- job_name (string: optional) - the job'')) []],
      [Style (Text (CHR 0x09 # ''- count (number: optional) - how many'')) []]]"
proof -
  let ?x = "\<lparr>quote = (\<lambda>s. s), RedString = (\<lambda>s. s), helpUsageMessage = [],
        ErrParsingArgsOrFlags = [],
        FriendlyName = (\<lambda>t. case t of NilType \<Rightarrow> [] | Impl n \<Rightarrow> n), diagsError = (\<lambda>d. [])\<rparr>"
  let ?w = "\<lparr>Init_info = None, initPackCommand = [], VerifyPackExists = None,
        Load = Inr \<lparr>Pack_Name = ''hello_world'', Pack_Description = ''greets'', App_URL = ''url''\<rparr>,
        NewParser = None,
        Parse = ([(''hello_world'', [\<lparr>Name = ''job_name'', Type = Impl ''string'', Default = KnownVal ''number'', Description = ''the job''\<rparr>,
                   \<lparr>Name = ''region'', Type = NilType, Default = NilVal, Description = ''the region''\<rparr>,
                   \<lparr>Name = ''count'', Type = NilType, Default = KnownVal ''number'', Description = ''how many''\<rparr>])], [])\<rparr>"
  have h: "\<not> HasErrors []" by (simp add: HasErrors_def)
  show ?thesis
    using Run_info_reports_type [where w = ?w and x = ?x, OF _ _ _ _ _ h]
    by simp
qed

text \<open>
  C8. When the info command succeeds, the document is the metadata rows followed, for
  each pack in the order iterated, by the pack's heading, then the rows of all its
  required variables, then the rows of all its optional variables, each group in the
  order of the pack's variable list.
\<close>

theorem Run_info_lists_required_first:
  assumes "Init_info w = None" and "VerifyPackExists w = None" and "Load w = Inr p"
    and "NewParser w = None" and "Parse w = (parsedVars, diags)" and "\<not> HasErrors diags"
  shows "snd (snd (Run_info x w)) =
     [[Style (Text ''Pack Name          '') [Bold], Text (Pack_Name p)],
      [Style (Text ''Description        '') [Bold], Text (Pack_Description p)],
      [Style (Text ''Application URL    '') [Bold], Text (App_URL p)]] @
     concat (map (\<lambda>(pName, vs).
        [Style (Text (''Pack '' @ quote x pName @ '' Variables:'')) [Bold]] #
        map (\<lambda>row. [Style (Text row) []])
          (map (required_row x) (filter (\<lambda>v. IsNull (Default v)) vs) @
           map (optional_row x) (filter (\<lambda>v. \<not> IsNull (Default v)) vs)))
        parsedVars)"
proof -
  have sect: "pack_section x = (\<lambda>(pName, vs).
        [Style (Text (''Pack '' @ quote x pName @ '' Variables:'')) [Bold]] #
        map (\<lambda>row. [Style (Text row) []])
          (map (required_row x) (filter (\<lambda>v. IsNull (Default v)) vs) @
           map (optional_row x) (filter (\<lambda>v. \<not> IsNull (Default v)) vs)))"
    by (rule ext) (simp add: pack_section_def variable_rows_partition split: prod.splits)
  show ?thesis
    unfolding Run_info_document [OF assms] sect by (rule refl)
qed


theorem Run_info_lists_required_first_witness:
  "snd (snd (Run_info
       \<lparr>quote = (\<lambda>s. s), RedString = (\<lambda>s. s), helpUsageMessage = [],
        ErrParsingArgsOrFlags = [],
        FriendlyName = (\<lambda>t. case t of NilType \<Rightarrow> [] | Impl n \<Rightarrow> n), diagsError = (\<lambda>d. [])\<rparr>
       \<lparr>Init_info = None, initPackCommand = [], VerifyPackExists = None,
        Load = Inr \<lparr>Pack_Name = ''hello_world'', Pack_Description = ''greets'', App_URL = ''url''\<rparr>,
        NewParser = None,
        Parse = ([(''hello_world'', [\<lparr>Name = ''a'', Type = Impl ''string'', Default = KnownVal ''string'', Description = []\<rparr>,
                   \<lparr>Name = ''b'', Type = Impl ''string'', Default = NilVal, Description = []\<rparr>,
                   \<lparr>Name = ''c'', Type = Impl ''string'', Default = KnownVal ''string'', Description = []\<rparr>,
                   \<lparr>Name = ''d'', Type = Impl ''string'', Default = NullVal ''string'', Description = []\<rparr>])], [])\<rparr>)) =
     [[Style (Text ''Pack Name          '') [Bold], Text ''hello_world''],
      [Style (Text ''Description        '') [Bold], Text ''greets''],
      [Style (Text ''Application URL    '') [Bold], Text ''url''],
      [Style (Text ''Pack hello_world Variables:'') [Bold]],
      [Style (Text (CHR 0x09 # ''- b (string: required) - '')) []],
      [Style (Text (CHR 0x09 # ''- d (string: required) - '')) []],
      [Style (Text (CHR 0x09 # ''- a (string: optional) - '')) []],
      [Style (Text (CHR 0x09 # ''- c (string: optional) - '')) []]]"
proof -
  let ?x = "\<lparr>quote = (\<lambda>s. s), RedString = (\<lambda>s. s), helpUsageMessage = [],
        ErrParsingArgsOrFlags = [],
        FriendlyName = (\<lambda>t. case t of NilType \<Rightarrow> [] | Impl n \<Rightarrow> n), diagsError = (\<lambda>d. [])\<rparr>"
  let ?w = "\<lparr>Init_info = None, initPackCommand = [], VerifyPackExists = None,
        Load = Inr \<lparr>Pack_Name = ''hello_world'', Pack_Description = ''greets'', App_URL = ''url''\<rparr>,
        NewParser = None,
        Parse = ([(''hello_world'', [\<lparr>Name = ''a'', Type = Impl ''string'', Default = KnownVal ''string'', Description = []\<rparr>,
                   \<lparr>Name = ''b'', Type = Impl ''string'', Default = NilVal, Description = []\<rparr>,
                   \<lparr>Name = ''c'', Type = Impl ''string'', Default = KnownVal ''string'', Description = []\<rparr>,
                   \<lparr>Name = ''d'', Type = Impl ''string'', Default = NullVal ''string'', Description = []\<rparr>])], [])\<rparr>"
  have h: "\<not> HasErrors []" by (simp add: HasErrors_def)
  show ?thesis
    using Run_info_lists_required_first [where w = ?w and x = ?x, OF _ _ _ _ _ h]
    by (simp add: required_row_def optional_row_def varType_def Equals_def)
qed

section \<open>Diagnostics and the exit code of the info command\<close>

lemma HasErrors_iff: "HasErrors diags \<longleftrightarrow> (\<exists>d \<in> set diags. severity d = DiagError)"
  by (simp add: HasErrors_def list_ex_iff)

lemma HasErrors_Add: "HasErrors (Add diags d) \<longleftrightarrow> HasErrors diags \<or> severity d = DiagError"
  by (auto simp: HasErrors_iff Add_def)

lemma Run_info_after_Parse:
  assumes "Init_info w = None" and "VerifyPackExists w = None" and "Load w = Inr p"
    and "NewParser w = None" and "Parse w = (parsedVars, diags)"
  shows "fst (Run_info x w) = (if HasErrors diags then 1 else 0)"
proof (cases "HasErrors diags")
  case True
  then have "diags \<noteq> []" by (auto simp: HasErrors_iff)
  with True assms show ?thesis by (simp add: Run_info_def)
next
  case False
  with assms show ?thesis by (simp add: Run_info_def)
qed

text \<open>
  C5. Adding a diagnostic keeps every diagnostic already held, whatever its severity,
  and \<open>HasErrors\<close> holds exactly when an error-severity diagnostic is held. Once the
  info command has reached \<open>Parse\<close>, it exits with code 1 exactly when \<open>HasErrors\<close>
  holds of the diagnostics returned and with code 0 otherwise; diagnostics that are all
  warnings leave the exit code 0.
\<close>

theorem Run_info_fails_iff_HasErrors:
  assumes "Init_info w = None" and "VerifyPackExists w = None" and "Load w = Inr p"
    and "NewParser w = None" and "Parse w = (parsedVars, diags)"
  shows "set (Add diags d) = insert d (set diags) \<and>
         (HasErrors (Add diags d) \<longleftrightarrow> HasErrors diags \<or> severity d = DiagError) \<and>
         (fst (Run_info x w) = 1 \<longleftrightarrow> HasErrors diags) \<and>
         (fst (Run_info x w) = 0 \<longleftrightarrow> \<not> HasErrors diags) \<and>
         ((\<forall>d \<in> set diags. severity d = DiagWarning) \<longrightarrow> fst (Run_info x w) = 0)"
proof -
  have code: "fst (Run_info x w) = (if HasErrors diags then 1 else 0)"
    by (rule Run_info_after_Parse [OF assms])
  have warn: "(\<forall>d \<in> set diags. severity d = DiagWarning) \<longrightarrow> \<not> HasErrors diags"
    by (auto simp: HasErrors_iff)
  have keep: "set (Add diags d) = insert d (set diags)"
    by (simp add: Add_def)
  show ?thesis
    using code warn keep HasErrors_Add [of diags d] by simp
qed

theorem Run_info_fails_iff_HasErrors_witness:
  "fst (Run_info
     \<lparr>quote = (\<lambda>s. s), RedString = (\<lambda>s. s), helpUsageMessage = [],
      ErrParsingArgsOrFlags = [],
      FriendlyName = (\<lambda>t. case t of NilType \<Rightarrow> [] | Impl n \<Rightarrow> n), diagsError = (\<lambda>d. [])\<rparr>
     \<lparr>Init_info = None, initPackCommand = [], VerifyPackExists = None,
      Load = Inr \<lparr>Pack_Name = ''hello_world'', Pack_Description = [], App_URL = []\<rparr>,
      NewParser = None,
      Parse = ([], [\<lparr>severity = DiagWarning, subject = (''hello_world'', ''region''),
                      message = MissingRequired\<rparr>])\<rparr>) = 0 \<and>
   fst (Run_info
     \<lparr>quote = (\<lambda>s. s), RedString = (\<lambda>s. s), helpUsageMessage = [],
      ErrParsingArgsOrFlags = [],
      FriendlyName = (\<lambda>t. case t of NilType \<Rightarrow> [] | Impl n \<Rightarrow> n), diagsError = (\<lambda>d. [])\<rparr>
     \<lparr>Init_info = None, initPackCommand = [], VerifyPackExists = None,
      Load = Inr \<lparr>Pack_Name = ''hello_world'', Pack_Description = [], App_URL = []\<rparr>,
      NewParser = None,
      Parse = ([], [\<lparr>severity = DiagWarning, subject = (''hello_world'', ''count''),
                      message = TypeMismatch\<rparr>,
                    \<lparr>severity = DiagError, subject = (''hello_world'', ''region''),
                      message = MissingRequired\<rparr>])\<rparr>) = 1"
proof -
  let ?x = "\<lparr>quote = (\<lambda>s. s), RedString = (\<lambda>s. s), helpUsageMessage = [],
      ErrParsingArgsOrFlags = [],
      FriendlyName = (\<lambda>t. case t of NilType \<Rightarrow> [] | Impl n \<Rightarrow> n), diagsError = (\<lambda>d. [])\<rparr>"
  let ?m = "\<lparr>Pack_Name = ''hello_world'', Pack_Description = [], App_URL = []\<rparr>"
  let ?w = "\<lparr>severity = DiagWarning, subject = (''hello_world'', ''region''),
              message = MissingRequired\<rparr>"
  let ?t = "\<lparr>severity = DiagWarning, subject = (''hello_world'', ''count''),
              message = TypeMismatch\<rparr>"
  let ?e = "\<lparr>severity = DiagError, subject = (''hello_world'', ''region''),
              message = MissingRequired\<rparr>"
  let ?w1 = "\<lparr>Init_info = None, initPackCommand = [], VerifyPackExists = None,
      Load = Inr ?m, NewParser = None,
      Parse = ([] :: (string \<times> string Variable list) list, [?w])\<rparr>"
  let ?w2 = "\<lparr>Init_info = None, initPackCommand = [], VerifyPackExists = None,
      Load = Inr ?m, NewParser = None,
      Parse = ([] :: (string \<times> string Variable list) list, [?t, ?e])\<rparr>"
  have a: "fst (Run_info ?x ?w1) = 0"
    using Run_info_fails_iff_HasErrors [of ?w1 ?m "[]" "[?w]" ?w ?x]
    by simp
  have b: "fst (Run_info ?x ?w2) = 1"
    using Run_info_fails_iff_HasErrors [of ?w2 ?m "[]" "[?t, ?e]" ?w ?x]
    by (simp add: HasErrors_def)
  from a b show ?thesis by simp
qed

section \<open>Resolution: precedence, qualification and required variables\<close>

subsection \<open>One spec: the fold over its sources\<close>

lemma foldl_apply_source_type:
  "foldl (apply_source ts s) (c0, t0, d0) ms = (c, t, d) \<Longrightarrow>
   t = (case t0 of Some u \<Rightarrow> Some u
        | None \<Rightarrow> (case ms of [] \<Rightarrow> None | m # _ \<Rightarrow> Some (type_of ts (assigned m))))"
proof (induction ms arbitrary: c0 t0 d0)
  case Nil
  then show ?case by (simp split: option.splits)
next
  case (Cons m ms)
  obtain c1 t1 d1 where st: "apply_source ts s (c0, t0, d0) m = (c1, t1, d1)"
    by (cases "apply_source ts s (c0, t0, d0) m") auto
  from Cons.prems st have "foldl (apply_source ts s) (c1, t1, d1) ms = (c, t, d)" by simp
  from Cons.IH [OF this] have t: "t = (case t1 of Some u \<Rightarrow> Some u
        | None \<Rightarrow> (case ms of [] \<Rightarrow> None | m # _ \<Rightarrow> Some (type_of ts (assigned m))))" .
  from st have "t1 = (case t0 of Some u \<Rightarrow> Some u | None \<Rightarrow> Some (type_of ts (assigned m)))"
    by (auto simp: apply_source_def split: option.splits if_splits)
  with t show ?case by (simp split: option.splits)
qed

lemma last_sort_key_max:
  fixes f :: "'a \<Rightarrow> nat"
  assumes "hi \<in> set xs" and "\<forall>m \<in> set xs. m \<noteq> hi \<longrightarrow> f m < f hi"
  shows "sort_key f xs \<noteq> [] \<and> last (sort_key f xs) = hi"
proof -
  let ?ys = "sort_key f xs"
  have ne: "?ys \<noteq> []" using assms(1) by (metis empty_iff list.set(1) set_sort)
  have srt: "sorted (map f ?ys)" by simp
  have lin: "last ?ys \<in> set xs" using ne by (metis last_in_set set_sort)
  have "hi \<in> set ?ys" using assms(1) by simp
  then obtain i where i: "i < length ?ys" "?ys ! i = hi" unfolding in_set_conv_nth by blast
  have "f (?ys ! i) \<le> f (?ys ! (length ?ys - 1))"
    using sorted_nth_mono [OF srt, of i "length ?ys - 1"] i ne by simp
  then have "f hi \<le> f (last ?ys)" using i ne by (simp add: last_conv_nth)
  with lin assms(2) have "last ?ys = hi" by fastforce
  with ne show ?thesis by simp
qed


lemma resolve_spec_highest:
  assumes "hi \<in> set (matching_sources s srcs)"
    and "\<forall>m \<in> set (matching_sources s srcs). m \<noteq> hi \<longrightarrow> precedence (origin m) < precedence (origin hi)"
    and "\<forall>t. initial_type ts s = Some t \<longrightarrow> compatible ts t (assigned hi)"
    and "initial_type ts s = None \<longrightarrow>
           (\<forall>m \<in> set (matching_sources s srcs). compatible ts (type_of ts (assigned m)) (assigned hi))"
  shows "fst (resolve_spec ts ig srcs s) = Some (assigned hi)"
proof -
  let ?ms = "in_precedence_order (matching_sources s srcs)"
  have l: "?ms \<noteq> [] \<and> last ?ms = hi"
    unfolding in_precedence_order_def
    by (rule last_sort_key_max [OF assms(1)]) (use assms(2) in blast)
  then have split: "?ms = butlast ?ms @ [hi]"
    by (metis append_butlast_last_id)
  have sub: "set (butlast ?ms) \<subseteq> set (matching_sources s srcs)"
  proof -
    have "set (butlast ?ms) \<subseteq> set ?ms" by (meson in_set_butlastD subsetI)
    then show ?thesis by (simp add: in_precedence_order_def)
  qed
  obtain c t d where st:
    "foldl (apply_source ts s) (defaultValue s, initial_type ts s, []) (butlast ?ms) = (c, t, d)"
    by (metis prod_cases3)
  have ty: "t = (case initial_type ts s of Some u \<Rightarrow> Some u
        | None \<Rightarrow> (case butlast ?ms of [] \<Rightarrow> None | m # _ \<Rightarrow> Some (type_of ts (assigned m))))"
    by (rule foldl_apply_source_type [OF st])
  have acc: "\<forall>u. t = Some u \<longrightarrow> compatible ts u (assigned hi)"
  proof (intro allI impI)
    fix u assume tu: "t = Some u"
    show "compatible ts u (assigned hi)"
    proof (cases "initial_type ts s")
      case (Some u')
      with ty tu have "u' = u" by simp
      with Some assms(3) show ?thesis by simp
    next
      case None
      with ty tu obtain m rest where b: "butlast ?ms = m # rest" and u: "u = type_of ts (assigned m)"
        by (auto split: list.splits)
      from b have "m \<in> set (butlast ?ms)" by simp
      with sub have "m \<in> set (matching_sources s srcs)" by blast
      with None assms(4) u show ?thesis by simp
    qed
  qed
  have step: "apply_source ts s (c, t, d) hi = (Some (assigned hi), (case t of None \<Rightarrow> Some (type_of ts (assigned hi)) | Some u \<Rightarrow> Some u), d)"
    using acc by (simp add: apply_source_def split: option.splits)
  have "foldl (apply_source ts s) (defaultValue s, initial_type ts s, []) ?ms
          = apply_source ts s (c, t, d) hi"
    by (subst split) (simp add: st)
  with step show ?thesis
    by (simp add: resolve_spec_def)
qed

subsection \<open>Looking a variable up in the resolved set\<close>

lemma map_of_entries_absent:
  "k \<notin> key ` set specs \<Longrightarrow>
   map_of (concat (map (\<lambda>s. case g s of None \<Rightarrow> [] | Some v \<Rightarrow> [(key s, v)]) specs)) k = None"
  by (induction specs) (auto split: option.splits)

lemma map_of_entries:
  "distinct (map key specs) \<Longrightarrow> s \<in> set specs \<Longrightarrow>
   map_of (concat (map (\<lambda>s. case g s of None \<Rightarrow> [] | Some v \<Rightarrow> [(key s, v)]) specs)) (key s) = g s"
proof (induction specs)
  case Nil
  then show ?case by simp
next
  case (Cons a specs)
  show ?case
  proof (cases "a = s")
    case True
    with Cons.prems have "key s \<notin> key ` set specs" by auto
    from map_of_entries_absent [OF this, of g] True show ?thesis
      by (simp split: option.splits)
  next
    case False
    with Cons.prems have in_rest: "s \<in> set specs" and ne: "key a \<noteq> key s" by auto
    from Cons.IH [OF _ in_rest] Cons.prems(1) ne show ?thesis
      by (simp split: option.splits)
  qed
qed

lemma resolved_value_Resolve:
  assumes "distinct (map spec_key (all_specs tree))" and "s \<in> set (all_specs tree)"
  shows "resolved_value (Resolve ts ig tree srcs) (owningPackAlias s) (name s)
           = fst (resolve_spec ts ig srcs s)"
  using map_of_entries [OF assms, of "\<lambda>s. fst (resolve_spec ts ig srcs s)"]
  by (simp add: resolved_value_def Resolve_def Let_def spec_key_def)


subsection \<open>Specs with a type in force from the start\<close>

lemma foldl_apply_source_typed:
  "fst (foldl (apply_source ts s) (c0, Some t, d0) ms) =
     (let acc = filter (\<lambda>m. compatible ts t (assigned m)) ms
      in if acc = [] then c0 else Some (assigned (last acc)))"
proof (induction ms arbitrary: c0 d0)
  case Nil
  then show ?case by simp
next
  case (Cons m ms)
  show ?case
  proof (cases "compatible ts t (assigned m)")
    case True
    then have "apply_source ts s (c0, Some t, d0) m = (Some (assigned m), Some t, d0)"
      by (simp add: apply_source_def)
    with True Cons.IH [of "Some (assigned m)" d0] show ?thesis
      by (simp add: Let_def)
  next
    case False
    then have "apply_source ts s (c0, Some t, d0) m =
        (c0, Some t, Add d0 \<lparr>severity = DiagWarning, subject = spec_key s, message = TypeMismatch\<rparr>)"
      by (simp add: apply_source_def)
    with False Cons.IH [of c0] show ?thesis
      by (simp add: Let_def)
  qed
qed

lemma resolve_spec_typed:
  assumes "initial_type ts s = Some t"
  shows "fst (resolve_spec ts ig srcs s) =
     (let acc = filter (\<lambda>m. compatible ts t (assigned m))
                  (in_precedence_order (matching_sources s srcs))
      in if acc = [] then defaultValue s else Some (assigned (last acc)))"
proof -
  let ?r = "foldl (apply_source ts s) (defaultValue s, Some t, [])
              (in_precedence_order (matching_sources s srcs))"
  have "fst (resolve_spec ts ig srcs s) = fst ?r"
    using assms by (cases ?r) (auto simp: resolve_spec_def)
  then show ?thesis by (simp only: foldl_apply_source_typed)
qed

subsection \<open>The diagnostics of a resolution\<close>

lemma foldl_apply_source_warnings:
  "foldl (apply_source ts s) (c0, t0, d0) ms = (c, t, d) \<Longrightarrow>
   \<forall>x \<in> set d0. severity x = DiagWarning \<Longrightarrow> \<forall>x \<in> set d. severity x = DiagWarning"
proof (induction ms arbitrary: c0 t0 d0)
  case Nil
  then show ?case by simp
next
  case (Cons m ms)
  obtain c1 t1 d1 where st: "apply_source ts s (c0, t0, d0) m = (c1, t1, d1)"
    by (metis prod_cases3)
  from st Cons.prems(2) have w: "\<forall>x \<in> set d1. severity x = DiagWarning"
    by (auto simp: apply_source_def Add_def split: option.splits if_splits)
  from Cons.prems(1) st have "foldl (apply_source ts s) (c1, t1, d1) ms = (c, t, d)" by simp
  from Cons.IH [OF this w] show ?case .
qed

lemma resolve_spec_ignoreMissing_warnings:
  "\<forall>x \<in> set (snd (resolve_spec ts True srcs s)). severity x = DiagWarning"
proof -
  obtain c t d where st:
    "foldl (apply_source ts s) (defaultValue s, initial_type ts s, [])
       (in_precedence_order (matching_sources s srcs)) = (c, t, d)"
    by (metis prod_cases3)
  have "\<forall>x \<in> set d. severity x = DiagWarning"
    by (rule foldl_apply_source_warnings [OF st]) simp
  with st show ?thesis
    by (auto simp: resolve_spec_def Add_def)
qed

lemma resolve_spec_unset:
  assumes "defaultValue s = None"
    and "\<forall>m \<in> set (matching_sources s srcs).
           \<exists>t. declaredType s = Some t \<and> \<not> compatible ts t (assigned m)"
  shows "fst (resolve_spec ts ig srcs s) = None \<and>
         \<lparr>severity = (if ig then DiagWarning else DiagError),
           subject = spec_key s, message = MissingRequired\<rparr>
           \<in> set (snd (resolve_spec ts ig srcs s))"
proof -
  let ?ms = "in_precedence_order (matching_sources s srcs)"
  obtain c t d where st:
    "foldl (apply_source ts s) (defaultValue s, initial_type ts s, []) ?ms = (c, t, d)"
    by (metis prod_cases3)
  have "c = None"
  proof (cases "matching_sources s srcs")
    case Nil
    with st assms(1) show ?thesis by (simp add: in_precedence_order_def)
  next
    case (Cons m rest)
    with assms(2) obtain u where u: "declaredType s = Some u" by auto
    then have it: "initial_type ts s = Some u" by (simp add: initial_type_def)
    have "filter (\<lambda>m. compatible ts u (assigned m)) ?ms = []"
      using assms(2) u by (auto simp: in_precedence_order_def filter_empty_conv)
    with foldl_apply_source_typed [of ts s "defaultValue s" u "[]" ?ms] st it assms(1)
    show ?thesis by simp
  qed
  with st assms(1) show ?thesis
    by (simp add: resolve_spec_def Add_def)
qed

lemma diagnostics_Resolve:
  "set (diagnostics (Resolve ts ig tree srcs)) =
     (\<Union>s \<in> set (all_specs tree). set (snd (resolve_spec ts ig srcs s))) \<union>
     (\<lambda>m. unknown_variable (target m)) `
        {m \<in> set srcs. \<not> declared_target (all_specs tree) (target m)}"
  by (auto simp: Resolve_def Let_def)

lemma Resolve_ignoreMissing_no_errors:
  "\<not> HasErrors (diagnostics (Resolve ts True tree srcs))"
proof
  assume "HasErrors (diagnostics (Resolve ts True tree srcs))"
  then obtain d where d: "d \<in> set (diagnostics (Resolve ts True tree srcs))"
    and e: "severity d = DiagError"
    unfolding HasErrors_iff by blast
  from d consider s where "s \<in> set (all_specs tree)" "d \<in> set (snd (resolve_spec ts True srcs s))"
    | m where "m \<in> set srcs" "d = unknown_variable (target m)"
    unfolding diagnostics_Resolve by blast
  then show False
  proof cases
    case 1
    with resolve_spec_ignoreMissing_warnings [of ts srcs s] e show False by simp
  next
    case 2
    with e show False by (simp add: unknown_variable_def)
  qed
qed

text \<open>
  C3. Take a spec of the tree that has no default and for which no matching source
  supplies a value: there is no matching source, or each one is rejected by the declared
  type. Without \<open>ignoreMissing\<close> the resolution holds a MissingRequired error for the
  spec and \<open>HasErrors\<close> is true. With \<open>ignoreMissing\<close> it holds a MissingRequired
  warning instead, \<open>HasErrors\<close> is false, and the variable has no entry in the
  resolved set.
\<close>

theorem Resolve_missing_required:
  assumes "s \<in> set (all_specs tree)" and "defaultValue s = None"
    and "\<forall>m \<in> set (matching_sources s srcs).
           \<exists>t. declaredType s = Some t \<and> \<not> compatible ts t (assigned m)"
  shows "(\<not> ig \<longrightarrow>
            \<lparr>severity = DiagError, subject = spec_key s, message = MissingRequired\<rparr>
              \<in> set (diagnostics (Resolve ts ig tree srcs)) \<and>
            HasErrors (diagnostics (Resolve ts ig tree srcs))) \<and>
         (ig \<longrightarrow>
            \<lparr>severity = DiagWarning, subject = spec_key s, message = MissingRequired\<rparr>
              \<in> set (diagnostics (Resolve ts ig tree srcs)) \<and>
            \<not> HasErrors (diagnostics (Resolve ts ig tree srcs)) \<and>
            (distinct (map spec_key (all_specs tree)) \<longrightarrow>
               resolved_value (Resolve ts ig tree srcs) (owningPackAlias s) (name s) = None))"
proof -
  let ?d = "\<lparr>severity = (if ig then DiagWarning else DiagError),
               subject = spec_key s, message = MissingRequired\<rparr>"
  have r: "fst (resolve_spec ts ig srcs s) = None \<and> ?d \<in> set (snd (resolve_spec ts ig srcs s))"
    by (rule resolve_spec_unset [OF assms(2,3)])
  have mem: "?d \<in> set (diagnostics (Resolve ts ig tree srcs))"
    unfolding diagnostics_Resolve using assms(1) r by blast
  have err: "\<not> ig \<Longrightarrow> HasErrors (diagnostics (Resolve ts ig tree srcs))"
    using mem unfolding HasErrors_iff by force
  have noerr: "ig \<Longrightarrow> \<not> HasErrors (diagnostics (Resolve ts ig tree srcs))"
    using Resolve_ignoreMissing_no_errors [of ts tree srcs] by simp
  have absent: "distinct (map spec_key (all_specs tree)) \<Longrightarrow>
      resolved_value (Resolve ts ig tree srcs) (owningPackAlias s) (name s) = None"
    using resolved_value_Resolve [OF _ assms(1), of ts ig srcs] r by simp
  show ?thesis using mem err noerr absent by auto
qed


theorem Resolve_missing_required_witness:
  "\<lparr>severity = DiagError, subject = (''root'', ''region''), message = MissingRequired\<rparr>
     \<in> set (diagnostics (Resolve
           \<lparr>type_of = (\<lambda>v. case v of Inl a \<Rightarrow> ''string'' | Inr n \<Rightarrow> ''number''),
            compatible = (\<lambda>t v. t = (case v of Inl a \<Rightarrow> ''string'' | Inr n \<Rightarrow> ''number''))\<rparr>
           False
           (Pack \<lparr>Pack_Name = ''root'', Pack_Description = [], App_URL = []\<rparr>
              [\<lparr>name = ''region'', declaredType = Some ''string'', defaultValue = None,
                description = [], owningPackAlias = ''root''\<rparr>] [] [])
           [\<lparr>origin = EnvironmentVariable, target = BareName ''count'', assigned = Inr (3 :: nat) :: string + nat\<rparr>])) \<and>
   HasErrors (diagnostics (Resolve
           \<lparr>type_of = (\<lambda>v. case v of Inl a \<Rightarrow> ''string'' | Inr n \<Rightarrow> ''number''),
            compatible = (\<lambda>t v. t = (case v of Inl a \<Rightarrow> ''string'' | Inr n \<Rightarrow> ''number''))\<rparr>
           False
           (Pack \<lparr>Pack_Name = ''root'', Pack_Description = [], App_URL = []\<rparr>
              [\<lparr>name = ''region'', declaredType = Some ''string'', defaultValue = None,
                description = [], owningPackAlias = ''root''\<rparr>] [] [])
           [\<lparr>origin = EnvironmentVariable, target = BareName ''count'', assigned = Inr (3 :: nat) :: string + nat\<rparr>])) \<and>
   \<lparr>severity = DiagWarning, subject = (''root'', ''region''), message = MissingRequired\<rparr>
     \<in> set (diagnostics (Resolve
           \<lparr>type_of = (\<lambda>v. case v of Inl a \<Rightarrow> ''string'' | Inr n \<Rightarrow> ''number''),
            compatible = (\<lambda>t v. t = (case v of Inl a \<Rightarrow> ''string'' | Inr n \<Rightarrow> ''number''))\<rparr>
           True
           (Pack \<lparr>Pack_Name = ''root'', Pack_Description = [], App_URL = []\<rparr>
              [\<lparr>name = ''region'', declaredType = Some ''string'', defaultValue = None,
                description = [], owningPackAlias = ''root''\<rparr>] [] [])
           [\<lparr>origin = EnvironmentVariable, target = BareName ''count'', assigned = Inr (3 :: nat) :: string + nat\<rparr>])) \<and>
   \<not> HasErrors (diagnostics (Resolve
           \<lparr>type_of = (\<lambda>v. case v of Inl a \<Rightarrow> ''string'' | Inr n \<Rightarrow> ''number''),
            compatible = (\<lambda>t v. t = (case v of Inl a \<Rightarrow> ''string'' | Inr n \<Rightarrow> ''number''))\<rparr>
           True
           (Pack \<lparr>Pack_Name = ''root'', Pack_Description = [], App_URL = []\<rparr>
              [\<lparr>name = ''region'', declaredType = Some ''string'', defaultValue = None,
                description = [], owningPackAlias = ''root''\<rparr>] [] [])
           [\<lparr>origin = EnvironmentVariable, target = BareName ''count'', assigned = Inr (3 :: nat) :: string + nat\<rparr>])) \<and>
   resolved_value (Resolve
           \<lparr>type_of = (\<lambda>v. case v of Inl a \<Rightarrow> ''string'' | Inr n \<Rightarrow> ''number''),
            compatible = (\<lambda>t v. t = (case v of Inl a \<Rightarrow> ''string'' | Inr n \<Rightarrow> ''number''))\<rparr>
           True
           (Pack \<lparr>Pack_Name = ''root'', Pack_Description = [], App_URL = []\<rparr>
              [\<lparr>name = ''region'', declaredType = Some ''string'', defaultValue = None,
                description = [], owningPackAlias = ''root''\<rparr>] [] [])
           [\<lparr>origin = EnvironmentVariable, target = BareName ''count'', assigned = Inr (3 :: nat) :: string + nat\<rparr>]) ''root'' ''region'' = None"
proof -
  let ?ts = "\<lparr>type_of = (\<lambda>v. case v of Inl a \<Rightarrow> ''string'' | Inr n \<Rightarrow> ''number''),
            compatible = (\<lambda>t v. t = (case v of Inl (a :: string) \<Rightarrow> ''string'' | Inr (n :: nat) \<Rightarrow> ''number''))\<rparr>"
  let ?s = "\<lparr>name = ''region'', declaredType = Some ''string'', defaultValue = None :: (string + nat) option,
                description = [], owningPackAlias = ''root''\<rparr>"
  let ?tree = "Pack \<lparr>Pack_Name = ''root'', Pack_Description = [], App_URL = []\<rparr> [?s] [] []"
  let ?srcs = "[\<lparr>origin = EnvironmentVariable, target = BareName ''count'', assigned = Inr (3 :: nat) :: string + nat\<rparr>]"
  have m: "\<forall>m \<in> set (matching_sources ?s ?srcs).
           \<exists>t. declaredType ?s = Some t \<and> \<not> compatible ?ts t (assigned m)"
    by (simp add: matching_sources_def qualified_sources_def bare_sources_def)
  have a: "?s \<in> set (all_specs ?tree)" by simp
  have d: "defaultValue ?s = None" by simp
  note t = Resolve_missing_required [OF a d m, of False]
  note u = Resolve_missing_required [OF a d m, of True]
  from t u show ?thesis by (simp add: spec_key_def)
qed



subsection \<open>Precedence among the matching sources\<close>

text \<open>
  The stable sort by rank, read without the sort: its last element is the last supplied
  among the elements of highest rank, its first the first supplied among those of
  lowest rank.
\<close>

lemma sorted_map_le_last:
  fixes f :: "'a \<Rightarrow> nat"
  assumes "sorted (map f zs)" and "y \<in> set zs"
  shows "f y \<le> f (last zs)"
proof -
  from assms(2) obtain i where i: "i < length zs" "zs ! i = y"
    unfolding in_set_conv_nth by blast
  then have ne: "zs \<noteq> []" by auto
  have "f (zs ! i) \<le> f (zs ! (length zs - 1))"
    using sorted_nth_mono [OF assms(1), of i "length zs - 1"] i ne by simp
  with i ne show ?thesis by (simp add: last_conv_nth)
qed

lemma sorted_map_hd_le:
  fixes f :: "'a \<Rightarrow> nat"
  assumes "sorted (map f zs)" and "y \<in> set zs"
  shows "f (hd zs) \<le> f y"
  using assms by (cases zs) auto

lemma last_filter_keep: "zs \<noteq> [] \<Longrightarrow> P (last zs) \<Longrightarrow> last (filter P zs) = last zs"
  by (induction zs rule: rev_induct) auto

lemma last_sort_key_Max:
  fixes f :: "'a \<Rightarrow> nat"
  assumes "ys \<noteq> []"
  shows "last (sort_key f ys) = last (filter (\<lambda>y. f y = Max (f ` set ys)) ys)"
proof -
  let ?zs = "sort_key f ys"
  have ne: "?zs \<noteq> []" using assms by (metis length_0_conv length_sort)
  have srt: "sorted (map f ?zs)" by simp
  have lin: "last ?zs \<in> set ys" using ne by (metis last_in_set set_sort)
  have mx: "Max (f ` set ys) = f (last ?zs)"
  proof (rule Max_eqI)
    show "finite (f ` set ys)" by simp
    show "f (last ?zs) \<in> f ` set ys" using lin by simp
    fix k assume "k \<in> f ` set ys"
    then obtain y where "y \<in> set ?zs" "k = f y" by auto
    with sorted_map_le_last [OF srt] show "k \<le> f (last ?zs)" by simp
  qed
  have "last (filter (\<lambda>y. f y = Max (f ` set ys)) ?zs) = last ?zs"
    by (rule last_filter_keep [OF ne]) (simp add: mx)
  then show ?thesis by (simp only: sort_key_stable)
qed

lemma hd_filter_keep: "zs \<noteq> [] \<Longrightarrow> P (hd zs) \<Longrightarrow> hd (filter P zs) = hd zs"
  by (cases zs) auto

lemma hd_sort_key_Min:
  fixes f :: "'a \<Rightarrow> nat"
  assumes "ys \<noteq> []"
  shows "hd (sort_key f ys) = hd (filter (\<lambda>y. f y = Min (f ` set ys)) ys)"
proof -
  let ?zs = "sort_key f ys"
  have ne: "?zs \<noteq> []" using assms by (metis length_0_conv length_sort)
  have srt: "sorted (map f ?zs)" by simp
  have hin: "hd ?zs \<in> set ys" using ne by (metis hd_in_set set_sort)
  have mn: "Min (f ` set ys) = f (hd ?zs)"
  proof (rule Min_eqI)
    show "finite (f ` set ys)" by simp
    show "f (hd ?zs) \<in> f ` set ys" using hin by simp
    fix k assume "k \<in> f ` set ys"
    then obtain y where "y \<in> set ?zs" "k = f y" by auto
    with sorted_map_hd_le [OF srt] show "f (hd ?zs) \<le> k" by simp
  qed
  have "hd (filter (\<lambda>y. f y = Min (f ` set ys)) ?zs) = hd ?zs"
    by (rule hd_filter_keep [OF ne]) (simp add: mn)
  then show ?thesis by (simp only: sort_key_stable)
qed


text \<open>The value of one spec, by the ranks of its matching sources.\<close>

lemma resolve_spec_typed_ranked:
  assumes "initial_type ts s = Some t"
  shows "fst (resolve_spec ts ig srcs s) =
     (let acc = filter (\<lambda>m. compatible ts t (assigned m)) (matching_sources s srcs)
      in if acc = [] then defaultValue s
         else Some (assigned (last (filter
                (\<lambda>m. precedence (origin m) = Max ((\<lambda>m. precedence (origin m)) ` set acc))
                acc))))"
proof -
  let ?f = "\<lambda>m. precedence (origin m)"
  let ?acc = "filter (\<lambda>m. compatible ts t (assigned m)) (matching_sources s srcs)"
  have fs: "filter (\<lambda>m. compatible ts t (assigned m))
              (in_precedence_order (matching_sources s srcs)) = sort_key ?f ?acc"
    by (simp add: in_precedence_order_def filter_sort)
  have e: "sort_key ?f ?acc = [] \<longleftrightarrow> ?acc = []"
    by (metis length_0_conv length_sort)
  show ?thesis
  proof (cases "?acc = []")
    case True
    with resolve_spec_typed [OF assms, of ig srcs] fs e show ?thesis
      by (simp add: Let_def)
  next
    case False
    with resolve_spec_typed [OF assms, of ig srcs] fs e last_sort_key_Max [OF False, of ?f]
    show ?thesis
      by (simp add: Let_def)
  qed
qed

lemma resolve_spec_untyped_ranked:
  assumes "initial_type ts s = None" and "matching_sources s srcs \<noteq> []"
    and "\<forall>v. compatible ts (type_of ts v) v"
  shows "fst (resolve_spec ts ig srcs s) =
     (let M = matching_sources s srcs;
          first = hd (filter
                   (\<lambda>m. precedence (origin m) = Min ((\<lambda>m. precedence (origin m)) ` set M)) M);
          acc = filter (\<lambda>m. compatible ts (type_of ts (assigned first)) (assigned m)) M
      in Some (assigned (last (filter
                (\<lambda>m. precedence (origin m) = Max ((\<lambda>m. precedence (origin m)) ` set acc))
                acc))))"
proof -
  let ?f = "\<lambda>m. precedence (origin m)"
  let ?M = "matching_sources s srcs"
  let ?zs = "in_precedence_order ?M"
  have zne: "?zs \<noteq> []"
    using assms(2) unfolding in_precedence_order_def by (metis length_0_conv length_sort)
  then obtain m0 rest where zs: "?zs = m0 # rest" by (cases ?zs) auto
  have m0: "m0 = hd (filter (\<lambda>m. ?f m = Min (?f ` set ?M)) ?M)"
    using hd_sort_key_Min [OF assms(2), of ?f] zs by (simp add: in_precedence_order_def)
  let ?t = "type_of ts (assigned m0)"
  let ?acc = "filter (\<lambda>m. compatible ts ?t (assigned m)) ?M"
  have m0M: "m0 \<in> set ?M"
  proof -
    have "m0 \<in> set ?zs" using zs by simp
    then show ?thesis by (simp add: in_precedence_order_def)
  qed
  have accne: "?acc \<noteq> []"
    using m0M assms(3) by (auto simp: filter_empty_conv)
  have first: "apply_source ts s (defaultValue s, None, []) m0 = (Some (assigned m0), Some ?t, [])"
    by (simp add: apply_source_def)
  have "fst (foldl (apply_source ts s) (defaultValue s, initial_type ts s, []) ?zs) =
          fst (foldl (apply_source ts s) (Some (assigned m0), Some ?t, []) rest)"
    using zs assms(1) first by simp
  also have "\<dots> = (let a = filter (\<lambda>m. compatible ts ?t (assigned m)) rest
                      in if a = [] then Some (assigned m0) else Some (assigned (last a)))"
    by (rule foldl_apply_source_typed)
  also have "\<dots> = Some (assigned (last (filter (\<lambda>m. compatible ts ?t (assigned m)) ?zs)))"
    using assms(3) by (simp add: zs Let_def)
  also have "filter (\<lambda>m. compatible ts ?t (assigned m)) ?zs = sort_key ?f ?acc"
    by (simp add: in_precedence_order_def filter_sort)
  also have "last (sort_key ?f ?acc) = last (filter (\<lambda>m. ?f m = Max (?f ` set ?acc)) ?acc)"
    by (rule last_sort_key_Max [OF accne])
  finally have fold: "fst (foldl (apply_source ts s) (defaultValue s, initial_type ts s, []) ?zs) =
      Some (assigned (last (filter (\<lambda>m. ?f m = Max (?f ` set ?acc)) ?acc)))" .
  have "fst (resolve_spec ts ig srcs s) =
          fst (foldl (apply_source ts s) (defaultValue s, initial_type ts s, []) ?zs)"
    using fold
    by (cases "foldl (apply_source ts s) (defaultValue s, initial_type ts s, []) ?zs")
       (auto simp: resolve_spec_def)
  with fold show ?thesis
    unfolding Let_def m0 [symmetric] by simp
qed

text \<open>A rejected source leaves its TypeMismatch diagnostic.\<close>

lemma foldl_apply_source_keeps:
  "foldl (apply_source ts s) (c0, t0, d0) ms = (c, t, d) \<Longrightarrow> set d0 \<subseteq> set d"
proof (induction ms arbitrary: c0 t0 d0)
  case Nil
  then show ?case by simp
next
  case (Cons m ms)
  obtain c1 t1 d1 where st: "apply_source ts s (c0, t0, d0) m = (c1, t1, d1)"
    by (metis prod_cases3)
  then have "set d0 \<subseteq> set d1"
    by (auto simp: apply_source_def Add_def split: option.splits if_splits)
  moreover from Cons.prems st have "foldl (apply_source ts s) (c1, t1, d1) ms = (c, t, d)" by simp
  from Cons.IH [OF this] have "set d1 \<subseteq> set d" .
  ultimately show ?case by blast
qed

lemma foldl_apply_source_mismatch:
  "foldl (apply_source ts s) (c0, Some t, d0) ms = (c, t', d) \<Longrightarrow>
   m \<in> set ms \<Longrightarrow> \<not> compatible ts t (assigned m) \<Longrightarrow>
   \<lparr>severity = DiagWarning, subject = spec_key s, message = TypeMismatch\<rparr> \<in> set d"
proof (induction ms arbitrary: c0 d0)
  case Nil
  then show ?case by simp
next
  case (Cons a ms)
  obtain c1 d1 where st: "apply_source ts s (c0, Some t, d0) a = (c1, Some t, d1)"
    by (cases "compatible ts t (assigned a)") (simp_all add: apply_source_def)
  from Cons.prems(1) st have fold: "foldl (apply_source ts s) (c1, Some t, d1) ms = (c, t', d)"
    by simp
  show ?case
  proof (cases "a = m")
    case True
    with st Cons.prems(3)
    have "\<lparr>severity = DiagWarning, subject = spec_key s, message = TypeMismatch\<rparr> \<in> set d1"
      by (auto simp: apply_source_def Add_def)
    with foldl_apply_source_keeps [OF fold] show ?thesis by blast
  next
    case False
    with Cons.prems(2) have "m \<in> set ms" by simp
    from Cons.IH [OF fold this Cons.prems(3)] show ?thesis .
  qed
qed

lemma resolve_spec_mismatch:
  assumes "initial_type ts s = Some t" and "m \<in> set (matching_sources s srcs)"
    and "\<not> compatible ts t (assigned m)"
  shows "\<lparr>severity = DiagWarning, subject = spec_key s, message = TypeMismatch\<rparr>
           \<in> set (snd (resolve_spec ts ig srcs s))"
proof -
  obtain c t' d where st:
    "foldl (apply_source ts s) (defaultValue s, Some t, [])
       (in_precedence_order (matching_sources s srcs)) = (c, t', d)"
    by (metis prod_cases3)
  have "m \<in> set (in_precedence_order (matching_sources s srcs))"
    using assms(2) by (simp add: in_precedence_order_def)
  from foldl_apply_source_mismatch [OF st this assms(3)]
  have "\<lparr>severity = DiagWarning, subject = spec_key s, message = TypeMismatch\<rparr> \<in> set d" .
  with st assms(1) show ?thesis
    by (auto simp: resolve_spec_def Add_def)
qed


text \<open>
  C1. The origins are ranked, lowest first: pack-declared default, shared override file,
  per-pack override file, environment variable, command-line assignment. For every
  spec of the tree the matching sources are applied in increasing rank, each one
  overwriting the previous value, except that a source whose value is incompatible with
  the type in force is discarded and leaves a TypeMismatch warning. So: with no
  matching source the value is the default. For a spec with a declared type or a
  default the value is that of the compatible matching source of highest rank (the one
  supplied last, of several of that rank), and the default when no matching source is
  compatible. For a spec with neither, in a type system where every value is
  compatible with its own type, the matching source of lowest rank (the one supplied
  first, of several) fixes the type and the value is again that of the compatible
  source of highest rank. A matching source that outranks every other one and is
  compatible gives the value. The spec with default "a", shared-file override "b" and
  command-line override "c" resolves to "c".
\<close>

theorem Resolve_precedence:
  assumes "distinct (map spec_key (all_specs tree))" and "s \<in> set (all_specs tree)"
  shows "precedence PackDefault < precedence SharedOverrideFile \<and>
         precedence SharedOverrideFile < precedence PerPackOverrideFile \<and>
         precedence PerPackOverrideFile < precedence EnvironmentVariable \<and>
         precedence EnvironmentVariable < precedence CommandLineAssignment \<and>
         (matching_sources s srcs = [] \<longrightarrow>
            resolved_value (Resolve ts ig tree srcs) (owningPackAlias s) (name s) = defaultValue s) \<and>
         (\<forall>t. initial_type ts s = Some t \<longrightarrow>
            resolved_value (Resolve ts ig tree srcs) (owningPackAlias s) (name s) =
              (let acc = filter (\<lambda>m. compatible ts t (assigned m)) (matching_sources s srcs)
               in if acc = [] then defaultValue s
                  else Some (assigned (last (filter
                         (\<lambda>m. precedence (origin m) =
                                Max ((\<lambda>m. precedence (origin m)) ` set acc))
                         acc))))) \<and>
         (initial_type ts s = None \<and> matching_sources s srcs \<noteq> [] \<and>
          (\<forall>v. compatible ts (type_of ts v) v) \<longrightarrow>
            resolved_value (Resolve ts ig tree srcs) (owningPackAlias s) (name s) =
              (let M = matching_sources s srcs;
                   first = hd (filter
                     (\<lambda>m. precedence (origin m) = Min ((\<lambda>m. precedence (origin m)) ` set M)) M);
                   acc = filter (\<lambda>m. compatible ts (type_of ts (assigned first)) (assigned m)) M
               in Some (assigned (last (filter
                         (\<lambda>m. precedence (origin m) =
                                Max ((\<lambda>m. precedence (origin m)) ` set acc))
                         acc))))) \<and>
         (hi \<in> set (matching_sources s srcs) \<and>
          (\<forall>m \<in> set (matching_sources s srcs).
             m \<noteq> hi \<longrightarrow> precedence (origin m) < precedence (origin hi)) \<and>
          (\<forall>t. initial_type ts s = Some t \<longrightarrow> compatible ts t (assigned hi)) \<and>
          (initial_type ts s = None \<longrightarrow>
             (\<forall>m \<in> set (matching_sources s srcs).
                compatible ts (type_of ts (assigned m)) (assigned hi)))
          \<longrightarrow> resolved_value (Resolve ts ig tree srcs) (owningPackAlias s) (name s)
                = Some (assigned hi)) \<and>
         (\<forall>t. initial_type ts s = Some t \<and> lo \<in> set (matching_sources s srcs) \<and>
              \<not> compatible ts t (assigned lo) \<longrightarrow>
            \<lparr>severity = DiagWarning, subject = spec_key s, message = TypeMismatch\<rparr>
              \<in> set (diagnostics (Resolve ts ig tree srcs)))"
proof -
  let ?rv = "resolved_value (Resolve ts ig tree srcs) (owningPackAlias s) (name s)"
  have look: "?rv = fst (resolve_spec ts ig srcs s)"
    by (rule resolved_value_Resolve [OF assms])
  have chain: "precedence PackDefault < precedence SharedOverrideFile \<and>
         precedence SharedOverrideFile < precedence PerPackOverrideFile \<and>
         precedence PerPackOverrideFile < precedence EnvironmentVariable \<and>
         precedence EnvironmentVariable < precedence CommandLineAssignment"
    by simp
  have A: "matching_sources s srcs = [] \<longrightarrow> ?rv = defaultValue s"
    unfolding look by (simp add: resolve_spec_def in_precedence_order_def)
  have B: "\<forall>t. initial_type ts s = Some t \<longrightarrow> ?rv =
              (let acc = filter (\<lambda>m. compatible ts t (assigned m)) (matching_sources s srcs)
               in if acc = [] then defaultValue s
                  else Some (assigned (last (filter
                         (\<lambda>m. precedence (origin m) =
                                Max ((\<lambda>m. precedence (origin m)) ` set acc))
                         acc))))"
    unfolding look by (intro allI impI) (rule resolve_spec_typed_ranked)
  have C: "initial_type ts s = None \<and> matching_sources s srcs \<noteq> [] \<and>
          (\<forall>v. compatible ts (type_of ts v) v) \<longrightarrow> ?rv =
              (let M = matching_sources s srcs;
                   first = hd (filter
                     (\<lambda>m. precedence (origin m) = Min ((\<lambda>m. precedence (origin m)) ` set M)) M);
                   acc = filter (\<lambda>m. compatible ts (type_of ts (assigned first)) (assigned m)) M
               in Some (assigned (last (filter
                         (\<lambda>m. precedence (origin m) =
                                Max ((\<lambda>m. precedence (origin m)) ` set acc))
                         acc))))"
    unfolding look by (intro impI, elim conjE, rule resolve_spec_untyped_ranked)
  have D: "hi \<in> set (matching_sources s srcs) \<and>
          (\<forall>m \<in> set (matching_sources s srcs).
             m \<noteq> hi \<longrightarrow> precedence (origin m) < precedence (origin hi)) \<and>
          (\<forall>t. initial_type ts s = Some t \<longrightarrow> compatible ts t (assigned hi)) \<and>
          (initial_type ts s = None \<longrightarrow>
             (\<forall>m \<in> set (matching_sources s srcs).
                compatible ts (type_of ts (assigned m)) (assigned hi)))
          \<longrightarrow> ?rv = Some (assigned hi)"
    unfolding look by (intro impI, elim conjE, rule resolve_spec_highest)
  have E: "\<forall>t. initial_type ts s = Some t \<and> lo \<in> set (matching_sources s srcs) \<and>
              \<not> compatible ts t (assigned lo) \<longrightarrow>
            \<lparr>severity = DiagWarning, subject = spec_key s, message = TypeMismatch\<rparr>
              \<in> set (diagnostics (Resolve ts ig tree srcs))"
  proof (intro allI impI, elim conjE)
    fix t
    assume "initial_type ts s = Some t" "lo \<in> set (matching_sources s srcs)"
      "\<not> compatible ts t (assigned lo)"
    from resolve_spec_mismatch [OF this, of ig]
    show "\<lparr>severity = DiagWarning, subject = spec_key s, message = TypeMismatch\<rparr>
              \<in> set (diagnostics (Resolve ts ig tree srcs))"
      unfolding diagnostics_Resolve using assms(2) by blast
  qed
  from chain A B C D E show ?thesis by (intro conjI) simp_all
qed

theorem Resolve_precedence_witness:
  "resolved_value
     (Resolve
        \<lparr>type_of = (\<lambda>v. case v of Inl a \<Rightarrow> ''string'' | Inr n \<Rightarrow> ''number''),
         compatible = (\<lambda>t v. t = (case v of Inl a \<Rightarrow> ''string'' | Inr n \<Rightarrow> ''number''))\<rparr>
        False
        (Pack \<lparr>Pack_Name = ''root'', Pack_Description = [], App_URL = []\<rparr>
           [\<lparr>name = ''x'', declaredType = None, defaultValue = Some (Inl ''a''),
             description = [], owningPackAlias = ''root''\<rparr>] [] [])
        [\<lparr>origin = CommandLineAssignment, target = Qualified ''root'' ''x'',
          assigned = Inl ''c'' :: string + nat\<rparr>,
         \<lparr>origin = SharedOverrideFile, target = Qualified ''root'' ''x'',
          assigned = Inl ''b''\<rparr>])
     ''root'' ''x'' = Some (Inl ''c'') \<and>
   resolved_value
     (Resolve
        \<lparr>type_of = (\<lambda>v. case v of Inl n \<Rightarrow> ''number'' | Inr l \<Rightarrow> ''list''),
         compatible = (\<lambda>t v. t = (case v of Inl n \<Rightarrow> ''number'' | Inr l \<Rightarrow> ''list''))\<rparr>
        False
        (Pack \<lparr>Pack_Name = ''root'', Pack_Description = [], App_URL = []\<rparr>
           [\<lparr>name = ''n'', declaredType = Some ''number'', defaultValue = Some (Inl 5),
             description = [], owningPackAlias = ''root''\<rparr>] [] [])
        [\<lparr>origin = CommandLineAssignment, target = Qualified ''root'' ''n'',
          assigned = Inr [1, 2] :: nat + nat list\<rparr>,
         \<lparr>origin = SharedOverrideFile, target = Qualified ''root'' ''n'',
          assigned = Inl 7\<rparr>])
     ''root'' ''n'' = Some (Inl 7) \<and>
   \<lparr>severity = DiagWarning, subject = (''root'', ''n''), message = TypeMismatch\<rparr>
     \<in> set (diagnostics
       (Resolve
        \<lparr>type_of = (\<lambda>v. case v of Inl n \<Rightarrow> ''number'' | Inr l \<Rightarrow> ''list''),
         compatible = (\<lambda>t v. t = (case v of Inl n \<Rightarrow> ''number'' | Inr l \<Rightarrow> ''list''))\<rparr>
        False
        (Pack \<lparr>Pack_Name = ''root'', Pack_Description = [], App_URL = []\<rparr>
           [\<lparr>name = ''n'', declaredType = Some ''number'', defaultValue = Some (Inl 5),
             description = [], owningPackAlias = ''root''\<rparr>] [] [])
        [\<lparr>origin = CommandLineAssignment, target = Qualified ''root'' ''n'',
          assigned = Inr [1, 2] :: nat + nat list\<rparr>,
         \<lparr>origin = SharedOverrideFile, target = Qualified ''root'' ''n'',
          assigned = Inl 7\<rparr>]))"
proof -
  let ?ts = "\<lparr>type_of = (\<lambda>v. case v of Inl (a :: string) \<Rightarrow> ''string'' | Inr (n :: nat) \<Rightarrow> ''number''),
         compatible = (\<lambda>t v. t = (case v of Inl (a :: string) \<Rightarrow> ''string'' | Inr (n :: nat) \<Rightarrow> ''number''))\<rparr>"
  let ?s = "\<lparr>name = ''x'', declaredType = None :: string option,
             defaultValue = Some (Inl ''a'' :: string + nat),
             description = [], owningPackAlias = ''root''\<rparr>"
  let ?tree = "Pack \<lparr>Pack_Name = ''root'', Pack_Description = [], App_URL = []\<rparr> [?s] [] []"
  let ?c = "\<lparr>origin = CommandLineAssignment, target = Qualified ''root'' ''x'',
          assigned = Inl ''c'' :: string + nat\<rparr>"
  let ?b = "\<lparr>origin = SharedOverrideFile, target = Qualified ''root'' ''x'',
          assigned = Inl ''b'' :: string + nat\<rparr>"
  have d: "distinct (map spec_key (all_specs ?tree))" by simp
  have a: "?s \<in> set (all_specs ?tree)" by simp
  have m: "matching_sources ?s [?c, ?b] = [?c, ?b]"
    by (simp add: matching_sources_def qualified_sources_def)
  have it: "initial_type ?ts ?s = Some ''string''"
    by (simp add: initial_type_def)
  have abc: "resolved_value (Resolve ?ts False ?tree [?c, ?b]) ''root'' ''x'' = Some (Inl ''c'')"
    using Resolve_precedence [OF d a, where srcs = "[?c, ?b]" and ts = ?ts and ig = False,
        THEN conjunct2, THEN conjunct2, THEN conjunct2, THEN conjunct2, THEN conjunct2,
        THEN conjunct1]
    unfolding m it by simp
  let ?ts2 = "\<lparr>type_of = (\<lambda>v. case v of Inl (n :: nat) \<Rightarrow> ''number'' | Inr (l :: nat list) \<Rightarrow> ''list''),
         compatible = (\<lambda>t v. t = (case v of Inl (n :: nat) \<Rightarrow> ''number'' | Inr (l :: nat list) \<Rightarrow> ''list''))\<rparr>"
  let ?s2 = "\<lparr>name = ''n'', declaredType = Some ''number'',
             defaultValue = Some (Inl 5 :: nat + nat list),
             description = [], owningPackAlias = ''root''\<rparr>"
  let ?tree2 = "Pack \<lparr>Pack_Name = ''root'', Pack_Description = [], App_URL = []\<rparr> [?s2] [] []"
  let ?l = "\<lparr>origin = CommandLineAssignment, target = Qualified ''root'' ''n'',
          assigned = Inr [1, 2] :: nat + nat list\<rparr>"
  let ?f = "\<lparr>origin = SharedOverrideFile, target = Qualified ''root'' ''n'',
          assigned = Inl 7 :: nat + nat list\<rparr>"
  have d2: "distinct (map spec_key (all_specs ?tree2))" by simp
  have a2: "?s2 \<in> set (all_specs ?tree2)" by simp
  have m2: "matching_sources ?s2 [?l, ?f] = [?l, ?f]"
    by (simp add: matching_sources_def qualified_sources_def)
  have it2: "initial_type ?ts2 ?s2 = Some ''number''"
    by (simp add: initial_type_def)
  note r2 = Resolve_precedence [OF d2 a2, where srcs = "[?l, ?f]" and ts = ?ts2 and ig = False
      and lo = ?l]
  have rej: "resolved_value (Resolve ?ts2 False ?tree2 [?l, ?f]) ''root'' ''n'' = Some (Inl 7)"
    using r2 [THEN conjunct2, THEN conjunct2, THEN conjunct2, THEN conjunct2, THEN conjunct2,
        THEN conjunct1]
    unfolding m2 it2 by simp
  have tm: "\<lparr>severity = DiagWarning, subject = (''root'', ''n''), message = TypeMismatch\<rparr>
     \<in> set (diagnostics (Resolve ?ts2 False ?tree2 [?l, ?f]))"
    using r2 [THEN conjunct2, THEN conjunct2, THEN conjunct2, THEN conjunct2, THEN conjunct2,
        THEN conjunct2, THEN conjunct2, THEN conjunct2]
    unfolding m2 it2 by (simp add: spec_key_def)
  from abc rej tm show ?thesis by simp
qed

subsection \<open>Bare and pack-qualified sources\<close>

lemma resolve_spec_cong:
  "matching_sources s srcs' = matching_sources s srcs \<Longrightarrow>
   resolve_spec ts ig srcs' s = resolve_spec ts ig srcs s"
  by (simp add: resolve_spec_def)

lemma matching_sources_qualified:
  "qualified_sources s srcs \<noteq> [] \<Longrightarrow>
   matching_sources s (qualified_sources s srcs) = matching_sources s srcs"
  by (simp add: matching_sources_def qualified_sources_def)

lemma matching_sources_bare:
  "qualified_sources s srcs = [] \<Longrightarrow>
   matching_sources s (bare_sources s srcs) = matching_sources s srcs"
  by (auto simp: matching_sources_def qualified_sources_def bare_sources_def filter_empty_conv)

text \<open>
  C2. For a spec of pack \<open>p\<close> named \<open>n\<close>: when some source is qualified \<open>p.n\<close>, the
  variable resolves exactly as if the sources qualified \<open>p.n\<close> were the only ones, so
  no bare source for \<open>n\<close> takes part, whatever its origin; when none is, it resolves
  exactly as if the bare sources for \<open>n\<close> were the only ones, so a bare source applies
  to every pack that declares \<open>n\<close> and has no qualified source. In the first case the
  highest-ranked compatible qualified source gives the value, in the second the
  highest-ranked compatible bare source. With the bare \<open>x = 1\<close> from the command line
  and \<open>child.x = 2\<close> from a shared file, \<open>x\<close> of \<open>child\<close> is 2 and \<open>x\<close> of the
  other pack is 1.
\<close>

theorem Resolve_qualified_replaces_bare:
  assumes "distinct (map spec_key (all_specs tree))" and "s \<in> set (all_specs tree)"
  shows
    "((\<exists>q \<in> set srcs. target q = Qualified (owningPackAlias s) (name s)) \<longrightarrow>
        resolved_value (Resolve ts ig tree srcs) (owningPackAlias s) (name s) =
        resolved_value
          (Resolve ts ig tree
             (filter (\<lambda>m. target m = Qualified (owningPackAlias s) (name s)) srcs))
          (owningPackAlias s) (name s)) \<and>
     ((\<forall>m \<in> set srcs. target m \<noteq> Qualified (owningPackAlias s) (name s)) \<longrightarrow>
        resolved_value (Resolve ts ig tree srcs) (owningPackAlias s) (name s) =
        resolved_value
          (Resolve ts ig tree (filter (\<lambda>m. target m = BareName (name s)) srcs))
          (owningPackAlias s) (name s)) \<and>
     (q \<in> set srcs \<and> target q = Qualified (owningPackAlias s) (name s) \<and>
      (\<forall>m \<in> set srcs. target m = Qualified (owningPackAlias s) (name s) \<and> m \<noteq> q \<longrightarrow>
                        precedence (origin m) < precedence (origin q)) \<and>
      (\<forall>t. initial_type ts s = Some t \<longrightarrow> compatible ts t (assigned q)) \<and>
      (initial_type ts s = None \<longrightarrow>
         (\<forall>m \<in> set srcs. target m = Qualified (owningPackAlias s) (name s) \<longrightarrow>
                           compatible ts (type_of ts (assigned m)) (assigned q)))
      \<longrightarrow> resolved_value (Resolve ts ig tree srcs) (owningPackAlias s) (name s)
            = Some (assigned q)) \<and>
     ((\<forall>m \<in> set srcs. target m \<noteq> Qualified (owningPackAlias s) (name s)) \<and>
      b \<in> set srcs \<and> target b = BareName (name s) \<and>
      (\<forall>m \<in> set srcs. target m = BareName (name s) \<and> m \<noteq> b \<longrightarrow>
                        precedence (origin m) < precedence (origin b)) \<and>
      (\<forall>t. initial_type ts s = Some t \<longrightarrow> compatible ts t (assigned b)) \<and>
      (initial_type ts s = None \<longrightarrow>
         (\<forall>m \<in> set srcs. target m = BareName (name s) \<longrightarrow>
                           compatible ts (type_of ts (assigned m)) (assigned b)))
      \<longrightarrow> resolved_value (Resolve ts ig tree srcs) (owningPackAlias s) (name s)
            = Some (assigned b))"
proof -
  let ?pa = "owningPackAlias s" and ?n = "name s"
  have look: "\<And>srcs. resolved_value (Resolve ts ig tree srcs) ?pa ?n
                  = fst (resolve_spec ts ig srcs s)"
    by (rule resolved_value_Resolve [OF assms])
  have P1: "(\<exists>q \<in> set srcs. target q = Qualified ?pa ?n) \<longrightarrow>
        fst (resolve_spec ts ig srcs s) =
        fst (resolve_spec ts ig (filter (\<lambda>m. target m = Qualified ?pa ?n) srcs) s)"
  proof
    assume "\<exists>q \<in> set srcs. target q = Qualified ?pa ?n"
    then have "qualified_sources s srcs \<noteq> []"
      by (auto simp: qualified_sources_def filter_empty_conv)
    from resolve_spec_cong [OF matching_sources_qualified [OF this], of ts ig]
    show "fst (resolve_spec ts ig srcs s) =
        fst (resolve_spec ts ig (filter (\<lambda>m. target m = Qualified ?pa ?n) srcs) s)"
      by (simp add: qualified_sources_def)
  qed
  have P2: "(\<forall>m \<in> set srcs. target m \<noteq> Qualified ?pa ?n) \<longrightarrow>
        fst (resolve_spec ts ig srcs s) =
        fst (resolve_spec ts ig (filter (\<lambda>m. target m = BareName ?n) srcs) s)"
  proof
    assume "\<forall>m \<in> set srcs. target m \<noteq> Qualified ?pa ?n"
    then have "qualified_sources s srcs = []"
      by (auto simp: qualified_sources_def filter_empty_conv)
    from resolve_spec_cong [OF matching_sources_bare [OF this], of ts ig]
    show "fst (resolve_spec ts ig srcs s) =
        fst (resolve_spec ts ig (filter (\<lambda>m. target m = BareName ?n) srcs) s)"
      by (simp add: bare_sources_def)
  qed
  have P3: "q \<in> set srcs \<and> target q = Qualified ?pa ?n \<and>
      (\<forall>m \<in> set srcs. target m = Qualified ?pa ?n \<and> m \<noteq> q \<longrightarrow>
                        precedence (origin m) < precedence (origin q)) \<and>
      (\<forall>t. initial_type ts s = Some t \<longrightarrow> compatible ts t (assigned q)) \<and>
      (initial_type ts s = None \<longrightarrow>
         (\<forall>m \<in> set srcs. target m = Qualified ?pa ?n \<longrightarrow>
                           compatible ts (type_of ts (assigned m)) (assigned q)))
      \<longrightarrow> fst (resolve_spec ts ig srcs s) = Some (assigned q)"
  proof (intro impI, elim conjE)
    assume q: "q \<in> set srcs" "target q = Qualified ?pa ?n"
      and mx: "\<forall>m \<in> set srcs. target m = Qualified ?pa ?n \<and> m \<noteq> q \<longrightarrow>
                        precedence (origin m) < precedence (origin q)"
      and t1: "\<forall>t. initial_type ts s = Some t \<longrightarrow> compatible ts t (assigned q)"
      and t2: "initial_type ts s = None \<longrightarrow>
         (\<forall>m \<in> set srcs. target m = Qualified ?pa ?n \<longrightarrow>
                           compatible ts (type_of ts (assigned m)) (assigned q))"
    from q have ms: "matching_sources s srcs = filter (\<lambda>m. target m = Qualified ?pa ?n) srcs"
      by (auto simp: matching_sources_def qualified_sources_def filter_empty_conv)
    show "fst (resolve_spec ts ig srcs s) = Some (assigned q)"
    proof (rule resolve_spec_highest)
      show "q \<in> set (matching_sources s srcs)" using q ms by simp
      show "\<forall>m \<in> set (matching_sources s srcs). m \<noteq> q \<longrightarrow>
              precedence (origin m) < precedence (origin q)"
        using mx ms by simp
      show "\<forall>t. initial_type ts s = Some t \<longrightarrow> compatible ts t (assigned q)" by (rule t1)
      show "initial_type ts s = None \<longrightarrow>
           (\<forall>m \<in> set (matching_sources s srcs). compatible ts (type_of ts (assigned m)) (assigned q))"
        using t2 ms by simp
    qed
  qed
  have P4: "(\<forall>m \<in> set srcs. target m \<noteq> Qualified ?pa ?n) \<and>
      b \<in> set srcs \<and> target b = BareName ?n \<and>
      (\<forall>m \<in> set srcs. target m = BareName ?n \<and> m \<noteq> b \<longrightarrow>
                        precedence (origin m) < precedence (origin b)) \<and>
      (\<forall>t. initial_type ts s = Some t \<longrightarrow> compatible ts t (assigned b)) \<and>
      (initial_type ts s = None \<longrightarrow>
         (\<forall>m \<in> set srcs. target m = BareName ?n \<longrightarrow>
                           compatible ts (type_of ts (assigned m)) (assigned b)))
      \<longrightarrow> fst (resolve_spec ts ig srcs s) = Some (assigned b)"
  proof (intro impI, elim conjE)
    assume nq: "\<forall>m \<in> set srcs. target m \<noteq> Qualified ?pa ?n"
      and b: "b \<in> set srcs" "target b = BareName ?n"
      and mx: "\<forall>m \<in> set srcs. target m = BareName ?n \<and> m \<noteq> b \<longrightarrow>
                        precedence (origin m) < precedence (origin b)"
      and t1: "\<forall>t. initial_type ts s = Some t \<longrightarrow> compatible ts t (assigned b)"
      and t2: "initial_type ts s = None \<longrightarrow>
         (\<forall>m \<in> set srcs. target m = BareName ?n \<longrightarrow>
                           compatible ts (type_of ts (assigned m)) (assigned b))"
    from nq have ms: "matching_sources s srcs = filter (\<lambda>m. target m = BareName ?n) srcs"
      by (auto simp: matching_sources_def qualified_sources_def bare_sources_def filter_empty_conv)
    show "fst (resolve_spec ts ig srcs s) = Some (assigned b)"
    proof (rule resolve_spec_highest)
      show "b \<in> set (matching_sources s srcs)" using b ms by simp
      show "\<forall>m \<in> set (matching_sources s srcs). m \<noteq> b \<longrightarrow>
              precedence (origin m) < precedence (origin b)"
        using mx ms by simp
      show "\<forall>t. initial_type ts s = Some t \<longrightarrow> compatible ts t (assigned b)" by (rule t1)
      show "initial_type ts s = None \<longrightarrow>
           (\<forall>m \<in> set (matching_sources s srcs). compatible ts (type_of ts (assigned m)) (assigned b))"
        using t2 ms by simp
    qed
  qed
  show ?thesis
    unfolding look by (intro conjI P1 P2 P3 P4)
qed


theorem Resolve_qualified_replaces_bare_witness:
  "resolved_value
     (Resolve
        \<lparr>type_of = (\<lambda>v. case v of Inl a \<Rightarrow> ''string'' | Inr n \<Rightarrow> ''number''),
         compatible = (\<lambda>t v. t = (case v of Inl a \<Rightarrow> ''string'' | Inr n \<Rightarrow> ''number''))\<rparr>
        False
        (Pack \<lparr>Pack_Name = ''root'', Pack_Description = [], App_URL = []\<rparr>
           [\<lparr>name = ''x'', declaredType = None, defaultValue = Some (Inr 0),
             description = [], owningPackAlias = ''root''\<rparr>] []
           [(''child'',
             Pack \<lparr>Pack_Name = ''child'', Pack_Description = [], App_URL = []\<rparr>
               [\<lparr>name = ''x'', declaredType = None, defaultValue = Some (Inr 0),
                 description = [], owningPackAlias = ''child''\<rparr>] [] [])])
        [\<lparr>origin = CommandLineAssignment, target = BareName ''x'',
          assigned = Inr 1 :: string + nat\<rparr>,
         \<lparr>origin = SharedOverrideFile, target = Qualified ''child'' ''x'',
          assigned = Inr 2\<rparr>])
     ''child'' ''x'' = Some (Inr 2) \<and>
   resolved_value
     (Resolve
        \<lparr>type_of = (\<lambda>v. case v of Inl a \<Rightarrow> ''string'' | Inr n \<Rightarrow> ''number''),
         compatible = (\<lambda>t v. t = (case v of Inl a \<Rightarrow> ''string'' | Inr n \<Rightarrow> ''number''))\<rparr>
        False
        (Pack \<lparr>Pack_Name = ''root'', Pack_Description = [], App_URL = []\<rparr>
           [\<lparr>name = ''x'', declaredType = None, defaultValue = Some (Inr 0),
             description = [], owningPackAlias = ''root''\<rparr>] []
           [(''child'',
             Pack \<lparr>Pack_Name = ''child'', Pack_Description = [], App_URL = []\<rparr>
               [\<lparr>name = ''x'', declaredType = None, defaultValue = Some (Inr 0),
                 description = [], owningPackAlias = ''child''\<rparr>] [] [])])
        [\<lparr>origin = CommandLineAssignment, target = BareName ''x'',
          assigned = Inr 1 :: string + nat\<rparr>,
         \<lparr>origin = SharedOverrideFile, target = Qualified ''child'' ''x'',
          assigned = Inr 2\<rparr>])
     ''root'' ''x'' = Some (Inr 1)"
proof -
  let ?ts = "\<lparr>type_of = (\<lambda>v. case v of Inl a \<Rightarrow> ''string'' | Inr n \<Rightarrow> ''number''),
         compatible = (\<lambda>t v. t = (case v of Inl (a :: string) \<Rightarrow> ''string'' | Inr (n :: nat) \<Rightarrow> ''number''))\<rparr>"
  let ?r = "\<lparr>name = ''x'', declaredType = None :: string option,
             defaultValue = Some (Inr 0 :: string + nat),
             description = [], owningPackAlias = ''root''\<rparr>"
  let ?c = "\<lparr>name = ''x'', declaredType = None :: string option,
             defaultValue = Some (Inr 0 :: string + nat),
             description = [], owningPackAlias = ''child''\<rparr>"
  let ?tree = "Pack \<lparr>Pack_Name = ''root'', Pack_Description = [], App_URL = []\<rparr> [?r] []
           [(''child'',
             Pack \<lparr>Pack_Name = ''child'', Pack_Description = [], App_URL = []\<rparr> [?c] [] [])]"
  let ?b = "\<lparr>origin = CommandLineAssignment, target = BareName ''x'',
          assigned = Inr 1 :: string + nat\<rparr>"
  let ?q = "\<lparr>origin = SharedOverrideFile, target = Qualified ''child'' ''x'',
          assigned = Inr 2 :: string + nat\<rparr>"
  have d: "distinct (map spec_key (all_specs ?tree))" by (simp add: spec_key_def)
  have ac: "?c \<in> set (all_specs ?tree)" by simp
  have ar: "?r \<in> set (all_specs ?tree)" by simp
  have ic: "initial_type ?ts ?c = Some ''number''" by (simp add: initial_type_def)
  have ir: "initial_type ?ts ?r = Some ''number''" by (simp add: initial_type_def)
  have child: "resolved_value (Resolve ?ts False ?tree [?b, ?q]) ''child'' ''x'' = Some (Inr 2)"
    using Resolve_qualified_replaces_bare
      [OF d ac, where q = ?q and b = ?b and srcs = "[?b, ?q]" and ts = ?ts and ig = False,
       THEN conjunct2, THEN conjunct2, THEN conjunct1]
    unfolding ic by simp
  have root: "resolved_value (Resolve ?ts False ?tree [?b, ?q]) ''root'' ''x'' = Some (Inr 1)"
    using Resolve_qualified_replaces_bare
      [OF d ar, where q = ?q and b = ?b and srcs = "[?b, ?q]" and ts = ?ts and ig = False,
       THEN conjunct2, THEN conjunct2, THEN conjunct2]
    unfolding ir by simp
  from child root show ?thesis by simp
qed

end
